theory Spec2Isabelle
  imports Main
begin

section \<open>Text\<close>

text \<open>
  A Python \<open>str\<close> is a sequence of Unicode code points, so text is a list of
  naturals and not a list of 8-bit characters. \<open>str\<close> writes an ASCII literal.
\<close>

type_synonym pystr = "nat list"

definition str :: "string \<Rightarrow> pystr" where
  "str s = map of_char s"

text \<open>
  \<open>str.isspace\<close> for one code point: the characters on which \<open>split()\<close> and
  \<open>strip()\<close> without arguments act.
\<close>

definition is_space :: "nat \<Rightarrow> bool" where
  "is_space c =
     ((9 \<le> c \<and> c \<le> 13) \<or> (28 \<le> c \<and> c \<le> 32) \<or> c = 133 \<or> c = 160 \<or> c = 5760
      \<or> (8192 \<le> c \<and> c \<le> 8202) \<or> c = 8232 \<or> c = 8233 \<or> c = 8239 \<or> c = 8287
      \<or> c = 12288)"

text \<open>
  \<open>text.split()\<close>: the maximal runs of non-space characters, in order. \<open>cur\<close> is the
  word being read.
\<close>

fun split_ws_from :: "pystr \<Rightarrow> pystr \<Rightarrow> pystr list" where
  "split_ws_from cur [] = (if cur = [] then [] else [cur])"
| "split_ws_from cur (c # cs) =
     (if is_space c
      then (if cur = [] then split_ws_from [] cs else cur # split_ws_from [] cs)
      else split_ws_from (cur @ [c]) cs)"

definition split_ws :: "pystr \<Rightarrow> pystr list" where
  "split_ws s = split_ws_from [] s"

text \<open>\<open>text.strip()\<close>: leading and trailing space characters removed.\<close>

definition strip :: "pystr \<Rightarrow> pystr" where
  "strip s = rev (dropWhile is_space (rev (dropWhile is_space s)))"

text \<open>
  \<open>text.split(sep)\<close> for a separator of one character, as in \<open>split("_")\<close>: the
  pieces between the separators, empty pieces kept, never an empty list.
\<close>

fun split_sep :: "nat \<Rightarrow> pystr \<Rightarrow> pystr list" where
  "split_sep sep [] = [[]]"
| "split_sep sep (c # cs) =
     (if c = sep then [] # split_sep sep cs
      else (c # hd (split_sep sep cs)) # tl (split_sep sep cs))"

text \<open>\<open>text.startswith(p)\<close>.\<close>

definition startswith :: "pystr \<Rightarrow> pystr \<Rightarrow> bool" where
  "startswith s p = (take (length p) s = p)"

section \<open>Identifier generator\<close>

text \<open>
  \<open>string.ascii_letters + string.digits\<close>: the lower-case letters, the upper-case
  letters, the digits.
\<close>

definition ascii_letters :: pystr where
  "ascii_letters = str ''abcdefghijklmnopqrstuvwxyzABCDEFGHIJKLMNOPQRSTUVWXYZ''"

definition digits :: pystr where
  "digits = str ''0123456789''"

text \<open>The exceptions that the handlers can raise from their own statements.\<close>

datatype error = IndexError | IntegrityError

text \<open>
  \<open>generate_id(length)\<close>: \<open>''.join(secrets.choice(chars) for _ in range(length))\<close>,
  where \<open>secrets.choice(seq)\<close> is \<open>seq[randbelow(len(seq))]\<close>. The operating system's
  entropy is an input of the model: a sequence \<open>rs\<close> of naturals, the \<open>i\<close>-th one
  consumed by the \<open>i\<close>-th choice and reduced below \<open>len(chars)\<close>, so that every value
  \<open>randbelow\<close> can return is covered. \<open>chars\<close> is not empty, so no choice raises.
\<close>

definition chars :: pystr where
  "chars = ascii_letters @ digits"

definition generate_id :: "nat \<Rightarrow> (nat \<Rightarrow> nat) \<Rightarrow> pystr" where
  "generate_id len rs = map (\<lambda>i. chars ! (rs i mod length chars)) [0..<len]"

text \<open>The default of the parameter \<open>length\<close>.\<close>

definition default_length :: nat where
  "default_length = 12"

section \<open>Persisted schema\<close>

text \<open>
  One record per table of \<open>init_db\<close>, the fields named after the columns. A column
  name used by two tables carries the table's initial in the later one
  (\<open>f_creator_id\<close>, \<open>d_creator_id\<close>), and \<open>meta_data.id\<close> is \<open>meta_id\<close>. A column that
  the handlers leave \<open>NULL\<close> or fill from an optional field is an option. A table is
  the list of its rows in insertion order.
\<close>

record meta_data_row =
  meta_id :: pystr
  user_tg_reg_date :: pystr
  user_bot_reg_date :: pystr
  device_meta :: pystr
  browser :: pystr

record user_row =
  telegram_id :: int
  username :: "pystr option"
  nickname :: pystr
  meta_data_id :: pystr

record short_link_row =
  short_id :: pystr
  original_url :: pystr
  creator_id :: int
  folder_id :: "pystr option"
  created_at :: pystr

record folder_row =
  f_folder_id :: pystr
  f_name :: pystr
  f_creator_id :: int

record deleted_link_row =
  hash_id :: pystr
  original_url_hash :: pystr
  deleted_at :: pystr
  d_creator_id :: int

record db =
  meta_data :: "meta_data_row list"
  user :: "user_row list"
  short_links :: "short_link_row list"
  folders :: "folder_row list"
  deleted_links_hash :: "deleted_link_row list"

definition empty_db :: db where
  "empty_db = \<lparr>meta_data = [], user = [], short_links = [], folders = [],
     deleted_links_hash = []\<rparr>"

section \<open>Connections and transactions\<close>

text \<open>
  \<open>aiosqlite.connect\<close> opens a connection with the default transaction control: an
  \<open>INSERT\<close> or \<open>DELETE\<close> writes into a transaction of the connection, \<open>commit\<close>
  makes the transaction's writes the stored database, and leaving the
  \<open>async with\<close> block closes the connection, which discards what was not committed.
  \<open>stored\<close> is the database as every other connection reads it, \<open>pending\<close> is what
  this connection reads.
\<close>

record conn =
  stored :: db
  pending :: db

definition connect :: "db \<Rightarrow> conn" where
  "connect d = \<lparr>stored = d, pending = d\<rparr>"

definition close :: "conn \<Rightarrow> db" where
  "close c = stored c"

text \<open>
  The writes the handlers make. An \<open>INSERT\<close> whose primary key is already in the
  table raises \<open>sqlite3.IntegrityError\<close> and writes nothing.
\<close>

datatype db_op =
    InsertMetaData meta_data_row
  | InsertUser user_row
  | InsertShortLink short_link_row
  | InsertFolder folder_row
  | InsertDeletedLinkHash deleted_link_row
  | DeleteShortLink pystr
  | Commit

fun execute :: "conn \<Rightarrow> db_op \<Rightarrow> error + conn" where
  "execute c (InsertMetaData r) =
     (if meta_id r \<in> set (map meta_id (meta_data (pending c))) then Inl IntegrityError
      else Inr (c\<lparr>pending := (pending c)\<lparr>meta_data := meta_data (pending c) @ [r]\<rparr>\<rparr>))"
| "execute c (InsertUser r) =
     (if telegram_id r \<in> set (map telegram_id (user (pending c))) then Inl IntegrityError
      else Inr (c\<lparr>pending := (pending c)\<lparr>user := user (pending c) @ [r]\<rparr>\<rparr>))"
| "execute c (InsertShortLink r) =
     (if short_id r \<in> set (map short_id (short_links (pending c))) then Inl IntegrityError
      else Inr (c\<lparr>pending := (pending c)\<lparr>short_links := short_links (pending c) @ [r]\<rparr>\<rparr>))"
| "execute c (InsertFolder r) =
     (if f_folder_id r \<in> set (map f_folder_id (folders (pending c))) then Inl IntegrityError
      else Inr (c\<lparr>pending := (pending c)\<lparr>folders := folders (pending c) @ [r]\<rparr>\<rparr>))"
| "execute c (InsertDeletedLinkHash r) =
     (if hash_id r \<in> set (map hash_id (deleted_links_hash (pending c)))
      then Inl IntegrityError
      else Inr (c\<lparr>pending :=
             (pending c)\<lparr>deleted_links_hash := deleted_links_hash (pending c) @ [r]\<rparr>\<rparr>))"
| "execute c (DeleteShortLink k) =
     Inr (c\<lparr>pending :=
            (pending c)\<lparr>short_links := filter (\<lambda>r. short_id r \<noteq> k) (short_links (pending c))\<rparr>\<rparr>)"
| "execute c Commit = Inr (c\<lparr>stored := pending c\<rparr>)"

text \<open>
  The operations of a handler in order: the connection when all are done, or the
  connection at the first operation that raises, with its error.
\<close>

fun execute_all :: "conn \<Rightarrow> db_op list \<Rightarrow> conn \<times> error option" where
  "execute_all c [] = (c, None)"
| "execute_all c (x # xs) =
     (case execute c x of Inl e \<Rightarrow> (c, Some e) | Inr c' \<Rightarrow> execute_all c' xs)"

text \<open>
  The writes of one \<open>async with aiosqlite.connect(DB_PATH) as db\<close> block: the stored
  database when the block is left, normally or by the exception.
\<close>

definition transaction :: "db \<Rightarrow> db_op list \<Rightarrow> db \<times> error option" where
  "transaction d ops = (case execute_all (connect d) ops of (c, e) \<Rightarrow> (close c, e))"

text \<open>
  The stored database when the block is left after its first \<open>k\<close> operations only
  (the task is cancelled, or the storage layer raises at the next one).
\<close>

definition interrupted :: "db \<Rightarrow> db_op list \<Rightarrow> nat \<Rightarrow> db" where
  "interrupted d ops k = fst (transaction d (take k ops))"

text \<open>The \<open>SELECT\<close> statements, each with the \<open>fetchone\<close> or \<open>fetchall\<close> that reads it.\<close>

definition select_original_url :: "db \<Rightarrow> pystr \<Rightarrow> pystr option" where
  "select_original_url d k =
     map_option original_url (find (\<lambda>r. short_id r = k) (short_links d))"

definition select_url_and_creator :: "db \<Rightarrow> pystr \<Rightarrow> (pystr \<times> int) option" where
  "select_url_and_creator d k =
     map_option (\<lambda>r. (original_url r, creator_id r)) (find (\<lambda>r. short_id r = k) (short_links d))"

definition select_user :: "db \<Rightarrow> int \<Rightarrow> int option" where
  "select_user d uid = map_option telegram_id (find (\<lambda>r. telegram_id r = uid) (user d))"

definition select_links_by_creator :: "db \<Rightarrow> int \<Rightarrow> (pystr \<times> pystr) list" where
  "select_links_by_creator d uid =
     map (\<lambda>r. (short_id r, original_url r)) (filter (\<lambda>r. creator_id r = uid) (short_links d))"

definition select_folders_by_creator :: "db \<Rightarrow> int \<Rightarrow> (pystr \<times> pystr) list" where
  "select_folders_by_creator d uid =
     map (\<lambda>r. (f_folder_id r, f_name r)) (filter (\<lambda>r. f_creator_id r = uid) (folders d))"

section \<open>Inbound actions and responses\<close>

text \<open>
  What the handlers read of a \<open>types.Message\<close> (\<open>text\<close>, \<open>from_user.id\<close>,
  \<open>from_user.username\<close>, \<open>from_user.full_name\<close>) and of a \<open>types.CallbackQuery\<close>
  (\<open>data\<close>, \<open>from_user.id\<close>).
\<close>

record message =
  m_text :: pystr
  m_from_id :: int
  m_username :: "pystr option"
  m_full_name :: pystr

record callback_query =
  cb_data :: pystr
  cb_from_id :: int

text \<open>
  What a handler sends back, one constructor per message of the source:
  \<^item> \<open>LinkReady url\<close>: the text with the resolved URL and the button that opens it;
  \<^item> \<open>LinkNotFound\<close>: the link is not found or was deleted;
  \<^item> \<open>Welcome\<close>: the greeting;
  \<^item> \<open>InvalidFormat\<close>: the format of the link is not correct;
  \<^item> \<open>Shortened url short_url\<close>: the original and the deep link;
  \<^item> \<open>NoLinks\<close>, and \<open>LinksList\<close> with, for each link, the first 30 characters of
    its URL, its id and the callback token of its delete button;
  \<^item> \<open>Deleted\<close>: the callback answer and the edited message after a deletion;
  \<^item> \<open>DeleteNotFound\<close>: the callback answer when the link is not in the table;
  \<^item> \<open>NoFolders\<close> with the token of the create button, \<open>FoldersList\<close> with name and
    id of each folder, \<open>FolderCreated\<close> with the new id.
\<close>

datatype response =
    LinkReady pystr
  | LinkNotFound
  | Welcome
  | InvalidFormat
  | Shortened pystr pystr
  | NoLinks
  | LinksList "(pystr \<times> pystr \<times> pystr) list"
  | Deleted
  | DeleteNotFound
  | NoFolders pystr
  | FoldersList "(pystr \<times> pystr) list"
  | FolderCreated pystr

text \<open>
  A handler returns the stored database it leaves and either its response or the
  exception that ended it (then nothing is sent).
\<close>

type_synonym outcome = "db \<times> (error + response)"

type_synonym entropy = "nat \<Rightarrow> nat"

section \<open>Handlers\<close>

subsection \<open>\<open>cmd_start\<close>\<close>

text \<open>
  The registration half of \<open>cmd_start\<close>, from the value \<open>found\<close> that \<open>fetchone\<close>
  returned for the \<open>SELECT\<close> on \<open>user\<close>: the two \<open>INSERT\<close>s and the \<open>commit\<close> when no
  row was found, then the greeting. \<open>d\<close> is the stored database when the first
  \<open>INSERT\<close> runs.
\<close>

definition register_ops :: "message \<Rightarrow> entropy \<Rightarrow> pystr \<Rightarrow> db_op list" where
  "register_ops m rs now =
     (let m_id = generate_id default_length rs
      in [InsertMetaData \<lparr>meta_id = m_id, user_tg_reg_date = str ''Unknown'',
             user_bot_reg_date = now, device_meta = str ''Mobile/Desktop'',
             browser = str ''In-App Telegram''\<rparr>,
          InsertUser \<lparr>telegram_id = m_from_id m, username = m_username m,
             nickname = m_full_name m, meta_data_id = m_id\<rparr>,
          Commit])"

definition cmd_start_register :: "db \<Rightarrow> int option \<Rightarrow> message \<Rightarrow> entropy \<Rightarrow> pystr \<Rightarrow> outcome" where
  "cmd_start_register d found m rs now =
     (if found = None
      then (case transaction d (register_ops m rs now) of
              (d', Some e) \<Rightarrow> (d', Inl e)
            | (d', None) \<Rightarrow> (d', Inr Welcome))
      else (d, Inr Welcome))"

definition cmd_start :: "db \<Rightarrow> message \<Rightarrow> entropy \<Rightarrow> pystr \<Rightarrow> outcome" where
  "cmd_start d m rs now =
     (let args = split_ws (m_text m)
      in if length args > 1
         then (case select_original_url d (args ! 1) of
                 Some url \<Rightarrow> (d, Inr (LinkReady url))
               | None \<Rightarrow> (d, Inr LinkNotFound))
         else cmd_start_register d (select_user d (m_from_id m)) m rs now)"

subsection \<open>\<open>create_link\<close>\<close>

text \<open>
  The filter of the decorator, \<open>F.text.regexp(r'^https?://')\<close>: the text begins with
  \<open>http://\<close> or with \<open>https://\<close>.
\<close>

definition create_link_filter :: "message \<Rightarrow> bool" where
  "create_link_filter m =
     (startswith (m_text m) (str ''http://'') \<or> startswith (m_text m) (str ''https://''))"

text \<open>
  \<open>validators.url\<close> and \<open>bot.get_me\<close> are not code of this repository: \<open>valid\<close> is
  the truth value of \<open>validators.url(url)\<close> and \<open>botname\<close> the user name that \<open>get_me\<close>
  returns.
\<close>

definition create_link :: "(pystr \<Rightarrow> bool) \<Rightarrow> pystr \<Rightarrow> db \<Rightarrow> message \<Rightarrow> entropy \<Rightarrow> pystr \<Rightarrow> outcome" where
  "create_link valid botname d m rs now =
     (let url = strip (m_text m)
      in if \<not> valid url then (d, Inr InvalidFormat)
         else (let sid = generate_id default_length rs
               in case transaction d
                      [InsertShortLink \<lparr>short_id = sid, original_url = url,
                         creator_id = m_from_id m, folder_id = None, created_at = now\<rparr>,
                       Commit] of
                    (d', Some e) \<Rightarrow> (d', Inl e)
                  | (d', None) \<Rightarrow>
                      (d', Inr (Shortened url (str ''https://t.me/'' @ botname @ str ''?start='' @ sid)))))"

text \<open>
  The handler behind its filter: \<open>None\<close> when the dispatcher does not call it for the
  message. (No message passes both this filter and the command filter of a handler
  registered before it: a command begins with \<open>/\<close>.)
\<close>

definition submit_url :: "(pystr \<Rightarrow> bool) \<Rightarrow> pystr \<Rightarrow> db \<Rightarrow> message \<Rightarrow> entropy \<Rightarrow> pystr \<Rightarrow> outcome option" where
  "submit_url valid botname d m rs now =
     (if create_link_filter m then Some (create_link valid botname d m rs now) else None)"

subsection \<open>\<open>list_links\<close>\<close>

definition list_links :: "db \<Rightarrow> message \<Rightarrow> outcome" where
  "list_links d m =
     (let links = select_links_by_creator d (m_from_id m)
      in if links = [] then (d, Inr NoLinks)
         else (d, Inr (LinksList
                 (map (\<lambda>(s_id, url). (take 30 url, s_id, str ''del_'' @ s_id)) links))))"

subsection \<open>\<open>delete_link_callback\<close>\<close>

text \<open>\<open>callback.data.split("_")[1]\<close>; the index raises when there is no second piece.\<close>

definition parse_short_id :: "pystr \<Rightarrow> error + pystr" where
  "parse_short_id token =
     (let parts = split_sep (of_char CHR ''_'') token
      in if length parts > 1 then Inr (parts ! 1) else Inl IndexError)"

text \<open>
  The writes of a deletion, from the row that the \<open>SELECT\<close> returned.
  \<open>sha\<close> is \<open>hashlib.sha256(url.encode()).hexdigest()\<close> as a function of \<open>url\<close>.
\<close>

definition delete_ops :: "(pystr \<Rightarrow> pystr) \<Rightarrow> pystr \<Rightarrow> pystr \<times> int \<Rightarrow> pystr \<Rightarrow> db_op list" where
  "delete_ops sha sid row now =
     (case row of (url, creator) \<Rightarrow>
        [InsertDeletedLinkHash \<lparr>hash_id = sid, original_url_hash = sha url,
           deleted_at = now, d_creator_id = creator\<rparr>,
         DeleteShortLink sid,
         Commit])"

definition delete_link_callback :: "(pystr \<Rightarrow> pystr) \<Rightarrow> db \<Rightarrow> callback_query \<Rightarrow> pystr \<Rightarrow> outcome" where
  "delete_link_callback sha d cb now =
     (case parse_short_id (cb_data cb) of
        Inl e \<Rightarrow> (d, Inl e)
      | Inr sid \<Rightarrow>
          (case select_url_and_creator d sid of
             Some row \<Rightarrow>
               (case transaction d (delete_ops sha sid row now) of
                  (d', Some e) \<Rightarrow> (d', Inl e)
                | (d', None) \<Rightarrow> (d', Inr Deleted))
           | None \<Rightarrow> (d, Inr DeleteNotFound)))"

subsection \<open>\<open>cmd_folders\<close> and \<open>create_folder_example\<close>\<close>

definition cmd_folders :: "db \<Rightarrow> message \<Rightarrow> outcome" where
  "cmd_folders d m =
     (let fs = select_folders_by_creator d (m_from_id m)
      in if fs = [] then (d, Inr (NoFolders (str ''create_folder_work'')))
         else (d, Inr (FoldersList (map (\<lambda>(f_id, name). (name, f_id)) fs))))"

text \<open>The fixed folder name, six Cyrillic letters, as code points.\<close>

definition folder_name_work :: pystr where
  "folder_name_work = [1056, 1072, 1073, 1086, 1090, 1072]"

definition create_folder_example :: "db \<Rightarrow> callback_query \<Rightarrow> entropy \<Rightarrow> outcome" where
  "create_folder_example d cb rs =
     (let f_id = generate_id default_length rs
      in case transaction d
             [InsertFolder \<lparr>f_folder_id = f_id, f_name = folder_name_work,
                f_creator_id = cb_from_id cb\<rparr>,
              Commit] of
           (d', Some e) \<Rightarrow> (d', Inl e)
         | (d', None) \<Rightarrow> (d', Inr (FolderCreated f_id)))"

subsection \<open>Callback dispatch\<close>

text \<open>
  The two callback handlers behind their filters, in the order of registration:
  \<open>F.data.startswith("del_")\<close>, then \<open>F.data == "create_folder_work"\<close>.
\<close>

definition delete_link_filter :: "callback_query \<Rightarrow> bool" where
  "delete_link_filter cb = startswith (cb_data cb) (str ''del_'')"

definition on_callback_query :: "(pystr \<Rightarrow> pystr) \<Rightarrow> db \<Rightarrow> callback_query \<Rightarrow> entropy \<Rightarrow> pystr \<Rightarrow> outcome option" where
  "on_callback_query sha d cb rs now =
     (if delete_link_filter cb then Some (delete_link_callback sha d cb now)
      else if cb_data cb = str ''create_folder_work'' then Some (create_folder_example d cb rs)
      else None)"

section \<open>Sequences of actions\<close>

text \<open>
  An inbound action with the entropy and the clock reading its handler consumes:
  a start command, a text message that is no command, the two list commands, a
  button press.
\<close>

datatype event =
    Start message entropy pystr
  | Text message entropy pystr
  | MyLinks message
  | Folders message
  | Callback callback_query entropy pystr

fun handle :: "(pystr \<Rightarrow> bool) \<Rightarrow> (pystr \<Rightarrow> pystr) \<Rightarrow> pystr \<Rightarrow> db \<Rightarrow> event \<Rightarrow> outcome option" where
  "handle valid sha botname d (Start m rs now) = Some (cmd_start d m rs now)"
| "handle valid sha botname d (Text m rs now) = submit_url valid botname d m rs now"
| "handle valid sha botname d (MyLinks m) = Some (list_links d m)"
| "handle valid sha botname d (Folders m) = Some (cmd_folders d m)"
| "handle valid sha botname d (Callback cb rs now) = on_callback_query sha d cb rs now"

definition db_after :: "db \<Rightarrow> outcome option \<Rightarrow> db" where
  "db_after d r = (case r of None \<Rightarrow> d | Some (d', _) \<Rightarrow> d')"

fun run :: "(pystr \<Rightarrow> bool) \<Rightarrow> (pystr \<Rightarrow> pystr) \<Rightarrow> pystr \<Rightarrow> db \<Rightarrow> event list \<Rightarrow> db" where
  "run valid sha botname d [] = d"
| "run valid sha botname d (e # es) = run valid sha botname (db_after d (handle valid sha botname d e)) es"

text \<open>The event is a press of the delete button of the link \<open>sid\<close>.\<close>

fun deletes :: "event \<Rightarrow> pystr \<Rightarrow> bool" where
  "deletes (Callback cb rs now) sid =
     (delete_link_filter cb \<and> parse_short_id (cb_data cb) = Inr sid)"
| "deletes e sid = False"

text \<open>
  The event is a text message for which \<open>create_link\<close>, if it runs and gets as far as
  the generator, is given the id \<open>sid\<close>.
\<close>

fun issues :: "event \<Rightarrow> pystr \<Rightarrow> bool" where
  "issues (Text m rs now) sid = (generate_id default_length rs = sid)"
| "issues e sid = False"

section \<open>Two start actions at once\<close>

text \<open>
  Every \<open>await\<close> of a handler gives the event loop the chance to run another task.
  Two start commands without argument, handled as two tasks \<open>A\<close> and \<open>B\<close>, in the
  schedule where both \<open>fetchone\<close> on \<open>user\<close> return before either task runs its first
  \<open>INSERT\<close>: both read the database \<open>d\<close>, then the writes of \<open>A\<close> run and are
  committed, then those of \<open>B\<close> on what \<open>A\<close> left. The result is the stored database
  and the outcome of each task.
\<close>

definition concurrent_start ::
  "db \<Rightarrow> message \<Rightarrow> entropy \<Rightarrow> pystr \<Rightarrow> message \<Rightarrow> entropy \<Rightarrow> pystr
   \<Rightarrow> db \<times> (error + response) \<times> (error + response)" where
  "concurrent_start d mA rsA nowA mB rsB nowB =
     (let foundA = select_user d (m_from_id mA);
          foundB = select_user d (m_from_id mB);
          (dA, outA) = cmd_start_register d foundA mA rsA nowA;
          (dB, outB) = cmd_start_register dA foundB mB rsB nowB
      in (dB, outA, outB))"

section \<open>Example inputs\<close>

text \<open>
  The inputs at which the theorems below are evaluated. The library functions that
  the handlers take as parameters are given on the texts the examples pass them:
  \<open>example_valid\<close> accepts the example URL and no other text, \<open>example_sha\<close> is the
  SHA-256 hex digest of the example URL, the only text the examples hash.
\<close>

definition example_url :: pystr where
  "example_url = str ''https://example.com/page''"

definition example_valid :: "pystr \<Rightarrow> bool" where
  "example_valid u = (u = example_url)"

definition example_sha :: "pystr \<Rightarrow> pystr" where
  "example_sha u = str ''3641c5f2274c5471278ab5bf1df6d1858d8aa392d85c51301abed2122a3c634f''"

definition example_bot :: pystr where
  "example_bot = str ''shortener_bot''"

definition example_entropy :: entropy where
  "example_entropy i = 7 * i + 3"

definition example_sid :: pystr where
  "example_sid = str ''dkryFMT07els''"

definition ann :: message where
  "ann = \<lparr>m_text = example_url, m_from_id = 7, m_username = Some (str ''ann''),
     m_full_name = str ''Ann''\<rparr>"

definition bob :: message where
  "bob = \<lparr>m_text = str ''/start'', m_from_id = 9, m_username = None,
     m_full_name = str ''Bob''\<rparr>"

definition press_delete :: "int \<Rightarrow> callback_query" where
  "press_delete uid = \<lparr>cb_data = str ''del_dkryFMT07els'', cb_from_id = uid\<rparr>"

text \<open>The stored database after Ann has submitted the example URL.\<close>

definition one_link_db :: db where
  "one_link_db =
     \<lparr>meta_data = [], user = [],
      short_links = [\<lparr>short_id = example_sid, original_url = example_url, creator_id = 7,
                       folder_id = None, created_at = str ''2026-01-01T10:00:00''\<rparr>],
      folders = [], deleted_links_hash = []\<rparr>"

text \<open>
  The stored database after Ann has pressed the delete button of her link, and the
  one after she has then submitted the example URL again with the generator returning
  the same id as the first time.
\<close>

definition deleted_db :: db where
  "deleted_db =
     \<lparr>meta_data = [], user = [], short_links = [], folders = [],
      deleted_links_hash =
        [\<lparr>hash_id = example_sid, original_url_hash = example_sha example_url,
           deleted_at = str ''2026-01-01T11:00:00'', d_creator_id = 7\<rparr>]\<rparr>"

definition reused_id_db :: db where
  "reused_id_db =
     \<lparr>meta_data = [], user = [],
      short_links = [\<lparr>short_id = example_sid, original_url = example_url, creator_id = 7,
                       folder_id = None, created_at = str ''2026-01-01T12:00:00''\<rparr>],
      folders = [],
      deleted_links_hash =
        [\<lparr>hash_id = example_sid, original_url_hash = example_sha example_url,
           deleted_at = str ''2026-01-01T11:00:00'', d_creator_id = 7\<rparr>]\<rparr>"



definition other_entropy :: entropy where
  "other_entropy i = 5 * i + 1"

section \<open>Properties of the identifier generator\<close>

lemma chars_length: "length chars = 62"
  by (simp add: chars_def ascii_letters_def digits_def str_def)

lemma chars_range: "list_all (\<lambda>c. 48 \<le> c \<and> c \<le> 122) chars"
  by (simp add: chars_def ascii_letters_def digits_def str_def)

lemma generate_id_length: "length (generate_id n rs) = n"
  by (simp add: generate_id_def)

lemma generate_id_chars: "set (generate_id n rs) \<subseteq> set chars"
proof -
  have "chars ! (k mod length chars) \<in> set chars" for k
    by (intro nth_mem) (simp add: chars_length)
  then show ?thesis
    by (auto simp: generate_id_def)
qed

lemma chars_no_space: "c \<in> set chars \<Longrightarrow> \<not> is_space c"
proof -
  assume "c \<in> set chars"
  with chars_range have "48 \<le> c \<and> c \<le> 122"
    by (simp add: list_all_iff)
  then show ?thesis
    by (simp add: is_space_def)
qed

lemma generate_id_no_space: "c \<in> set (generate_id n rs) \<Longrightarrow> \<not> is_space c"
  using generate_id_chars chars_no_space by blast

subsection \<open>Transactions of the handlers\<close>

lemma transaction_insert_link:
  "transaction d [InsertShortLink r, Commit] =
     (if short_id r \<in> set (map short_id (short_links d)) then (d, Some IntegrityError)
      else (d\<lparr>short_links := short_links d @ [r]\<rparr>, None))"
  by (simp add: transaction_def connect_def close_def)

lemma transaction_insert_folder:
  "transaction d [InsertFolder r, Commit] =
     (if f_folder_id r \<in> set (map f_folder_id (folders d)) then (d, Some IntegrityError)
      else (d\<lparr>folders := folders d @ [r]\<rparr>, None))"
  by (simp add: transaction_def connect_def close_def)

lemma transaction_delete:
  "transaction d (delete_ops sha sid (url, creator) now) =
     (if sid \<in> set (map hash_id (deleted_links_hash d)) then (d, Some IntegrityError)
      else (d\<lparr>deleted_links_hash := deleted_links_hash d @
                 [\<lparr>hash_id = sid, original_url_hash = sha url, deleted_at = now,
                   d_creator_id = creator\<rparr>],
               short_links := filter (\<lambda>r. short_id r \<noteq> sid) (short_links d)\<rparr>, None))"
  by (simp add: transaction_def connect_def close_def delete_ops_def)

lemma transaction_register:
  "transaction d (register_ops m rs now) =
     (if generate_id default_length rs \<in> set (map meta_id (meta_data d))
         \<or> m_from_id m \<in> set (map telegram_id (user d))
      then (d, Some IntegrityError)
      else (d\<lparr>meta_data := meta_data d @
                 [\<lparr>meta_id = generate_id default_length rs, user_tg_reg_date = str ''Unknown'',
                   user_bot_reg_date = now, device_meta = str ''Mobile/Desktop'',
                   browser = str ''In-App Telegram''\<rparr>],
               user := user d @
                 [\<lparr>telegram_id = m_from_id m, username = m_username m,
                   nickname = m_full_name m, meta_data_id = generate_id default_length rs\<rparr>]\<rparr>,
            None))"
  by (simp add: transaction_def connect_def close_def register_ops_def Let_def)

subsection \<open>What the handlers leave in \<open>short_links\<close>\<close>

lemma cmd_start_links: "short_links (fst (cmd_start d m rs now)) = short_links d"
  by (simp add: cmd_start_def cmd_start_register_def transaction_register Let_def
      split: option.splits)

lemma find_append_Some: "find P xs = Some x \<Longrightarrow> find P (xs @ ys) = Some x"
  by (induction xs) (auto split: if_splits)

lemma find_append_None: "find P xs = None \<Longrightarrow> find P (xs @ ys) = find P ys"
  by (induction xs) (auto split: if_splits)

lemma find_filter_other:
  "k \<noteq> k' \<Longrightarrow> find (\<lambda>r. f r = k) (filter (\<lambda>r. f r \<noteq> k') xs) = find (\<lambda>r. f r = k) xs"
  by (induction xs) auto

lemma create_link_keeps:
  assumes "select_original_url d k = Some url"
  shows "select_original_url (fst (create_link valid botname d m rs now)) k = Some url"
  using assms
  by (auto simp: create_link_def Let_def transaction_insert_link select_original_url_def
      find_append_Some)

lemma delete_keeps:
  assumes "select_original_url d k = Some url" and "parse_short_id (cb_data cb) \<noteq> Inr k"
  shows "select_original_url (fst (delete_link_callback sha d cb now)) k = Some url"
proof (cases "parse_short_id (cb_data cb)")
  case (Inl e)
  with assms show ?thesis by (simp add: delete_link_callback_def)
next
  case (Inr k')
  with assms have "k \<noteq> k'" by auto
  with assms Inr show ?thesis
    by (cases "select_url_and_creator d k'")
      (auto simp: delete_link_callback_def transaction_delete select_original_url_def
        find_filter_other)
qed

lemma create_folder_links: "short_links (fst (create_folder_example d cb rs)) = short_links d"
  by (simp add: create_folder_example_def Let_def transaction_insert_folder)

lemma db_after_Some: "db_after d (Some p) = fst p"
  by (simp add: db_after_def split: prod.splits)

lemma db_after_None: "db_after d None = d"
  by (simp add: db_after_def)

lemma handle_keeps:
  assumes "select_original_url d k = Some url" and "\<not> deletes e k"
  shows "select_original_url (db_after d (handle valid sha botname d e)) k = Some url"
proof (cases e)
  case (Start m rs now)
  have "select_original_url (fst (cmd_start d m rs now)) k = select_original_url d k"
    by (simp add: select_original_url_def cmd_start_links)
  with assms Start show ?thesis
    by (simp add: db_after_Some)
next
  case (Text m rs now)
  with assms create_link_keeps [OF assms(1), of valid botname m rs now] show ?thesis
    by (simp add: db_after_Some db_after_None submit_url_def)
next
  case (MyLinks m)
  with assms show ?thesis by (simp add: db_after_Some list_links_def Let_def)
next
  case (Folders m)
  with assms show ?thesis by (simp add: db_after_Some cmd_folders_def Let_def)
next
  case (Callback cb rs now)
  show ?thesis
  proof (cases "delete_link_filter cb")
    case True
    with assms Callback have "parse_short_id (cb_data cb) \<noteq> Inr k" by simp
    from delete_keeps [OF assms(1) this, of sha now] True Callback show ?thesis
      by (simp add: db_after_Some on_callback_query_def)
  next
    case False
    have "select_original_url (fst (create_folder_example d cb rs)) k = select_original_url d k"
      by (simp add: select_original_url_def create_folder_links)
    with False assms Callback show ?thesis
      by (simp add: db_after_Some db_after_None on_callback_query_def)
  qed
qed

lemma run_keeps:
  assumes "select_original_url d k = Some url" and "\<forall>e \<in> set es. \<not> deletes e k"
  shows "select_original_url (run valid sha botname d es) k = Some url"
  using assms
proof (induction es arbitrary: d)
  case Nil
  then show ?case by simp
next
  case (Cons e es)
  then show ?case by (simp add: handle_keeps)
qed

subsection \<open>The start command of a deep link\<close>

lemma split_ws_from_word:
  "\<forall>c \<in> set w. \<not> is_space c \<Longrightarrow> cur @ w \<noteq> [] \<Longrightarrow> split_ws_from cur w = [cur @ w]"
  by (induction w arbitrary: cur) auto

lemma split_ws_start:
  assumes "\<forall>c \<in> set w. \<not> is_space c" and "w \<noteq> []"
  shows "split_ws (str ''/start '' @ w) = [str ''/start'', w]"
proof -
  have "split_ws (str ''/start '' @ w) = str ''/start'' # split_ws_from [] w"
    by (simp add: split_ws_def str_def is_space_def)
  with assms show ?thesis
    by (simp add: split_ws_from_word)
qed

lemma cmd_start_resolves:
  assumes "select_original_url d (generate_id default_length rs) = Some url"
  shows "cmd_start d (m\<lparr>m_text := str ''/start '' @ generate_id default_length rs\<rparr>) rs' now
         = (d, Inr (LinkReady url))"
proof -
  have "generate_id default_length rs \<noteq> []"
    using generate_id_length [of default_length rs] by (auto simp: default_length_def)
  then have "split_ws (str ''/start '' @ generate_id default_length rs)
             = [str ''/start'', generate_id default_length rs]"
    using generate_id_no_space by (intro split_ws_start) blast+
  with assms show ?thesis
    by (simp add: cmd_start_def)
qed

subsection \<open>The evaluated examples\<close>

lemma example_sid_generated: "generate_id default_length example_entropy = example_sid"
  by code_simp

lemma ann_submits:
  "submit_url example_valid example_bot empty_db ann example_entropy (str ''2026-01-01T10:00:00'')
   = Some (one_link_db, Inr (Shortened example_url (str ''https://t.me/shortener_bot?start=dkryFMT07els'')))"
  by code_simp

lemma ann_filter: "create_link_filter ann"
  by code_simp

lemma ann_valid: "example_valid (strip (m_text ann))"
  by code_simp

section \<open>Creating and resolving\<close>

text \<open>
  Claim C1. A message that reaches \<open>create_link\<close>, whose stripped text is a valid URL
  and that is answered (the handler did not end in an exception), is answered with
  the deep link of a 12-character id; after any further actions, none of them a
  press of the delete button of that id, the start command carrying the id is
  answered with exactly the stripped text that was submitted.
\<close>

theorem created_link_resolves:
  assumes "create_link_filter m" and "valid (strip (m_text m))"
    and "submit_url valid botname d m rs now = Some (d1, Inr r)"
    and "\<forall>e \<in> set es. \<not> deletes e (generate_id default_length rs)"
  shows "r = Shortened (strip (m_text m))
               (str ''https://t.me/'' @ botname @ str ''?start='' @ generate_id default_length rs)
         \<and> length (generate_id default_length rs) = 12
         \<and> cmd_start (run valid sha botname d1 es)
              (m'\<lparr>m_text := str ''/start '' @ generate_id default_length rs\<rparr>) rs' now'
            = (run valid sha botname d1 es, Inr (LinkReady (strip (m_text m))))"
proof -
  let ?sid = "generate_id default_length rs"
  from assms(1-3) have fresh: "?sid \<notin> set (map short_id (short_links d))"
    and d1: "d1 = d\<lparr>short_links := short_links d @
               [\<lparr>short_id = ?sid, original_url = strip (m_text m), creator_id = m_from_id m,
                 folder_id = None, created_at = now\<rparr>]\<rparr>"
    and r: "r = Shortened (strip (m_text m)) (str ''https://t.me/'' @ botname @ str ''?start='' @ ?sid)"
    by (auto simp: submit_url_def create_link_def Let_def transaction_insert_link
        split: if_splits)
  from fresh have "find (\<lambda>r. short_id r = ?sid) (short_links d) = None"
    by (force simp: find_None_iff)
  then have "select_original_url d1 ?sid = Some (strip (m_text m))"
    by (simp add: d1 select_original_url_def find_append_None)
  then have "select_original_url (run valid sha botname d1 es) ?sid = Some (strip (m_text m))"
    using assms(4) by (rule run_keeps)
  then have "cmd_start (run valid sha botname d1 es) (m'\<lparr>m_text := str ''/start '' @ ?sid\<rparr>) rs' now'
             = (run valid sha botname d1 es, Inr (LinkReady (strip (m_text m))))"
    by (rule cmd_start_resolves)
  moreover have "length ?sid = 12"
    by (simp add: generate_id_length default_length_def)
  ultimately show ?thesis
    using r by blast
qed

theorem created_link_resolves_witness:
  "create_link_filter ann \<and> example_valid (strip (m_text ann))
   \<and> submit_url example_valid example_bot empty_db ann example_entropy (str ''2026-01-01T10:00:00'')
       = Some (one_link_db, Inr (Shortened example_url (str ''https://t.me/shortener_bot?start=dkryFMT07els'')))
   \<and> cmd_start (run example_valid example_sha example_bot one_link_db [Start bob example_entropy (str ''2026-01-01T10:05:00''), MyLinks ann])
         (bob\<lparr>m_text := str ''/start '' @ generate_id default_length example_entropy\<rparr>)
         example_entropy (str ''2026-01-01T10:10:00'')
       = (run example_valid example_sha example_bot one_link_db [Start bob example_entropy (str ''2026-01-01T10:05:00''), MyLinks ann],
          Inr (LinkReady example_url))"
proof -
  have nodel: "\<forall>e \<in> set [Start bob example_entropy (str ''2026-01-01T10:05:00''), MyLinks ann].
                \<not> deletes e (generate_id default_length example_entropy)"
    by simp
  have url: "strip (m_text ann) = example_url"
    by code_simp
  from created_link_resolves [OF ann_filter ann_valid ann_submits nodel, of example_sha bob example_entropy "str ''2026-01-01T10:10:00''"]
  show ?thesis
    using ann_filter ann_valid ann_submits by (simp only: url) 
qed

section \<open>Identifiers and delete tokens\<close>

lemma chars_no_underscore: "of_char CHR ''_'' \<notin> set chars"
  by (simp add: chars_def ascii_letters_def digits_def str_def)

lemma split_sep_absent: "sep \<notin> set w \<Longrightarrow> split_sep sep w = [w]"
  by (induction w) auto

lemma parse_del: "of_char CHR ''_'' \<notin> set w \<Longrightarrow> parse_short_id (str ''del_'' @ w) = Inr w"
  by (simp add: parse_short_id_def str_def split_sep_absent Let_def)

text \<open>
  Claim C5. An identifier generated at the default length has exactly 12 characters,
  each of them one of the 62 characters of \<open>chars\<close>, which are the ASCII letters and
  the digits.
\<close>

theorem generate_id_default_shape:
  "length (generate_id default_length rs) = 12
   \<and> set (generate_id default_length rs) \<subseteq> set chars
   \<and> chars = str ''abcdefghijklmnopqrstuvwxyzABCDEFGHIJKLMNOPQRSTUVWXYZ0123456789''
   \<and> length chars = 62"
proof -
  have "chars = str ''abcdefghijklmnopqrstuvwxyzABCDEFGHIJKLMNOPQRSTUVWXYZ0123456789''"
    by (simp add: chars_def ascii_letters_def digits_def str_def)
  then show ?thesis
    using generate_id_chars [of default_length rs]
    by (simp add: generate_id_length chars_length default_length_def)
qed

theorem generate_id_default_shape_witness:
  "generate_id default_length example_entropy = example_sid
   \<and> length example_sid = 12 \<and> set example_sid \<subseteq> set chars"
  using generate_id_default_shape [of example_entropy]
  by (simp add: example_sid_generated)

section \<open>Deleting a link\<close>

subsection \<open>Outcomes of a deletion\<close>

lemma select_url_and_creator_find:
  "select_url_and_creator d k =
     map_option (\<lambda>r. (original_url r, creator_id r)) (find (\<lambda>r. short_id r = k) (short_links d))"
  by (simp add: select_url_and_creator_def)

lemma delete_present:
  assumes "parse_short_id (cb_data cb) = Inr sid"
    and "find (\<lambda>r. short_id r = sid) (short_links d) = Some row"
    and "sid \<notin> set (map hash_id (deleted_links_hash d))"
  shows "delete_link_callback sha d cb now =
           (d\<lparr>deleted_links_hash := deleted_links_hash d @
                 [\<lparr>hash_id = sid, original_url_hash = sha (original_url row), deleted_at = now,
                   d_creator_id = creator_id row\<rparr>],
               short_links := filter (\<lambda>r. short_id r \<noteq> sid) (short_links d)\<rparr>, Inr Deleted)"
  using assms
  by (simp add: delete_link_callback_def select_url_and_creator_def transaction_delete)

lemma delete_clash:
  assumes "parse_short_id (cb_data cb) = Inr sid"
    and "find (\<lambda>r. short_id r = sid) (short_links d) = Some row"
    and "sid \<in> set (map hash_id (deleted_links_hash d))"
  shows "delete_link_callback sha d cb now = (d, Inl IntegrityError)"
  using assms
  by (simp add: delete_link_callback_def select_url_and_creator_def transaction_delete)

lemma delete_absent:
  assumes "parse_short_id (cb_data cb) = Inr sid"
    and "find (\<lambda>r. short_id r = sid) (short_links d) = None"
  shows "delete_link_callback sha d cb now = (d, Inr DeleteNotFound)"
  using assms
  by (simp add: delete_link_callback_def select_url_and_creator_def)

lemma find_filter_same: "find (\<lambda>r. f r = k) (filter (\<lambda>r. f r \<noteq> k) xs) = None"
  by (induction xs) auto

lemma filter_key_absent: "k \<notin> set (map f xs) \<Longrightarrow> filter (\<lambda>r. f r = k) xs = []"
  by (induction xs) auto

lemma parse_press: "parse_short_id (cb_data (press_delete u)) = Inr example_sid"
  using parse_del [of example_sid]
  by (simp add: press_delete_def example_sid_def str_def)

text \<open>
  Claim C2, as amended. For a short id that is in \<open>short_links\<close> and has no row in
  \<open>deleted_links_hash\<close> yet, the delete handler answers that the link is deleted;
  afterwards the id resolves to nothing, a start command carrying it is answered
  with \<open>LinkNotFound\<close>, no creator's list holds it, and exactly one row of
  \<open>deleted_links_hash\<close> has the id as key: the one with the digest of the link's
  URL, the time of the deletion and the link's creator.
\<close>

theorem delete_removes_and_records:
  assumes "parse_short_id (cb_data cb) = Inr sid"
    and "find (\<lambda>r. short_id r = sid) (short_links d) = Some row"
    and "sid \<notin> set (map hash_id (deleted_links_hash d))"
  shows "snd (delete_link_callback sha d cb now) = Inr Deleted
    \<and> select_original_url (fst (delete_link_callback sha d cb now)) sid = None
    \<and> (1 < length (split_ws (m_text m)) \<and> split_ws (m_text m) ! 1 = sid \<longrightarrow>
         snd (cmd_start (fst (delete_link_callback sha d cb now)) m rs' now') = Inr LinkNotFound)
    \<and> sid \<notin> fst ` set (select_links_by_creator (fst (delete_link_callback sha d cb now)) uid)
    \<and> filter (\<lambda>r. hash_id r = sid)
         (deleted_links_hash (fst (delete_link_callback sha d cb now)))
       = [\<lparr>hash_id = sid, original_url_hash = sha (original_url row), deleted_at = now,
           d_creator_id = creator_id row\<rparr>]"
proof -
  let ?d' = "fst (delete_link_callback sha d cb now)"
  note out = delete_present [OF assms, of sha now]
  have gone: "select_original_url ?d' sid = None"
    by (simp add: out select_original_url_def find_filter_same)
  then have "1 < length (split_ws (m_text m)) \<and> split_ws (m_text m) ! 1 = sid \<longrightarrow>
         snd (cmd_start ?d' m rs' now') = Inr LinkNotFound"
    by (simp add: cmd_start_def)
  moreover have "sid \<notin> fst ` set (select_links_by_creator ?d' uid)"
    by (auto simp: out select_links_by_creator_def)
  moreover have "filter (\<lambda>r. hash_id r = sid) (deleted_links_hash ?d')
       = [\<lparr>hash_id = sid, original_url_hash = sha (original_url row), deleted_at = now,
           d_creator_id = creator_id row\<rparr>]"
    using assms(3) by (simp add: out filter_key_absent)
  ultimately show ?thesis
    using gone by (simp add: out)
qed

lemma find_one_link:
  "find (\<lambda>r. short_id r = example_sid) (short_links one_link_db)
   = Some \<lparr>short_id = example_sid, original_url = example_url, creator_id = 7,
            folder_id = None, created_at = str ''2026-01-01T10:00:00''\<rparr>"
  by (simp add: one_link_db_def)

theorem delete_removes_and_records_witness:
  "snd (delete_link_callback example_sha one_link_db (press_delete 7) (str ''2026-01-01T11:00:00''))
     = Inr Deleted
   \<and> select_original_url
       (fst (delete_link_callback example_sha one_link_db (press_delete 7) (str ''2026-01-01T11:00:00'')))
       example_sid = None
   \<and> filter (\<lambda>r. hash_id r = example_sid)
       (deleted_links_hash
         (fst (delete_link_callback example_sha one_link_db (press_delete 7) (str ''2026-01-01T11:00:00''))))
     = [\<lparr>hash_id = example_sid, original_url_hash = example_sha example_url,
         deleted_at = str ''2026-01-01T11:00:00'', d_creator_id = 7\<rparr>]"
proof -
  have fresh: "example_sid \<notin> set (map hash_id (deleted_links_hash one_link_db))"
    by (simp add: one_link_db_def)
  from delete_removes_and_records [OF parse_press find_one_link fresh,
      where sha = example_sha and now = "str ''2026-01-01T11:00:00''"]
  show ?thesis
    by simp
qed

lemma find_reused:
  "find (\<lambda>r. short_id r = example_sid) (short_links reused_id_db)
   = Some \<lparr>short_id = example_sid, original_url = example_url, creator_id = 7,
            folder_id = None, created_at = str ''2026-01-01T12:00:00''\<rparr>"
  by (simp add: reused_id_db_def)

lemma ann_url: "strip (m_text ann) = example_url"
  by (simp add: ann_def strip_def example_url_def str_def is_space_def)

lemma ann_creates:
  assumes "example_sid \<notin> set (map short_id (short_links d))"
  shows "create_link example_valid example_bot d ann example_entropy now =
     (d\<lparr>short_links := short_links d @
          [\<lparr>short_id = example_sid, original_url = example_url, creator_id = 7,
            folder_id = None, created_at = now\<rparr>]\<rparr>,
      Inr (Shortened example_url (str ''https://t.me/'' @ example_bot @ str ''?start='' @ example_sid)))"
proof -
  have "m_from_id ann = 7" by (simp add: ann_def)
  with assms show ?thesis
    by (simp add: create_link_def ann_url example_valid_def example_sid_generated
        transaction_insert_link)
qed

lemma reused_id_db_reached:
  "run example_valid example_sha example_bot empty_db
       [Text ann example_entropy (str ''2026-01-01T10:00:00''),
        Callback (press_delete 7) example_entropy (str ''2026-01-01T11:00:00''),
        Text ann example_entropy (str ''2026-01-01T12:00:00'')] = reused_id_db"
proof -
  have 1: "db_after empty_db (handle example_valid example_sha example_bot empty_db
             (Text ann example_entropy (str ''2026-01-01T10:00:00''))) = one_link_db"
    by (simp add: submit_url_def ann_filter db_after_Some ann_creates empty_db_def)
      (simp add: one_link_db_def)
  have f: "delete_link_filter (press_delete 7)"
    by (simp add: delete_link_filter_def press_delete_def startswith_def str_def)
  have fresh: "example_sid \<notin> set (map hash_id (deleted_links_hash one_link_db))"
    by (simp add: one_link_db_def)
  have 2: "db_after one_link_db (handle example_valid example_sha example_bot one_link_db
             (Callback (press_delete 7) example_entropy (str ''2026-01-01T11:00:00''))) = deleted_db"
    by (simp add: on_callback_query_def f db_after_Some
        delete_present [OF parse_press find_one_link fresh])
      (simp add: one_link_db_def deleted_db_def)
  have 3: "db_after deleted_db (handle example_valid example_sha example_bot deleted_db
             (Text ann example_entropy (str ''2026-01-01T12:00:00''))) = reused_id_db"
    by (simp add: submit_url_def ann_filter db_after_Some ann_creates deleted_db_def)
      (simp add: reused_id_db_def)
  show ?thesis
    by (simp only: run.simps 1 2 3)
qed

text \<open>
  Claim C2 as stated fails where the id has been deleted once before: after
  submit, delete and submit again with the generator returning the same id, the id
  is in \<open>short_links\<close>, and the delete handler ends in \<open>IntegrityError\<close> and leaves
  the link and the database as they were.
\<close>

theorem delete_existing_counterexample:
  "run example_valid example_sha example_bot empty_db
       [Text ann example_entropy (str ''2026-01-01T10:00:00''),
        Callback (press_delete 7) example_entropy (str ''2026-01-01T11:00:00''),
        Text ann example_entropy (str ''2026-01-01T12:00:00'')] = reused_id_db
   \<and> select_original_url reused_id_db example_sid = Some example_url
   \<and> parse_short_id (cb_data (press_delete 7)) = Inr example_sid
   \<and> delete_link_callback example_sha reused_id_db (press_delete 7) (str ''2026-01-01T13:00:00'')
       = (reused_id_db, Inl IntegrityError)"
proof -
  have clash: "example_sid \<in> set (map hash_id (deleted_links_hash reused_id_db))"
    by (simp add: reused_id_db_def)
  have "select_original_url reused_id_db example_sid = Some example_url"
    by (simp add: select_original_url_def find_reused)
  with reused_id_db_reached parse_press delete_clash [OF parse_press find_reused clash]
  show ?thesis
    by blast
qed

section \<open>Transactions that are not committed\<close>

lemma execute_stored:
  "execute c x = Inr c' \<Longrightarrow> x \<noteq> Commit \<Longrightarrow> stored c' = stored c"
  by (cases x) (auto split: if_splits)

lemma execute_all_stored:
  "Commit \<notin> set xs \<Longrightarrow> stored (fst (execute_all c xs)) = stored c"
proof (induction xs arbitrary: c)
  case Nil
  then show ?case by simp
next
  case (Cons x xs)
  show ?case
  proof (cases "execute c x")
    case (Inl e)
    then show ?thesis by simp
  next
    case (Inr c')
    from Cons.prems have "x \<noteq> Commit" and "Commit \<notin> set xs"
      by auto
    with Inr Cons.IH [of c'] show ?thesis
      by (simp add: execute_stored)
  qed
qed

lemma transaction_without_commit:
  "Commit \<notin> set xs \<Longrightarrow> fst (transaction d xs) = d"
  using execute_all_stored [of xs "connect d"]
  by (cases "execute_all (connect d) xs") (simp add: transaction_def close_def connect_def)

lemma take_delete_ops:
  "k < 3 \<Longrightarrow> Commit \<notin> set (take k (delete_ops sha sid row now))"
proof -
  assume "k < 3"
  then consider "k = 0" | "k = 1" | "k = 2"
    by linarith
  then show ?thesis
    by cases (simp_all add: delete_ops_def numeral_2_eq_2 split: prod.splits)
qed

section \<open>Callers, start arguments, validation and registration\<close>

text \<open>
  Claim C7. Neither handler reads the caller's id: the outcome of the delete handler,
  and of the start command that carries an argument, is the same for every two
  caller ids \<open>a\<close> and \<open>b\<close>; in particular a caller who is not the creator of a link
  that can be deleted gets it deleted.
\<close>

theorem no_authorization_check:
  "delete_link_callback sha d (cb\<lparr>cb_from_id := a\<rparr>) now
     = delete_link_callback sha d (cb\<lparr>cb_from_id := b\<rparr>) now
   \<and> (1 < length (split_ws (m_text m)) \<longrightarrow>
        cmd_start d (m\<lparr>m_from_id := a\<rparr>) rs now' = cmd_start d (m\<lparr>m_from_id := b\<rparr>) rs now')
   \<and> (parse_short_id (cb_data cb) = Inr sid
        \<and> find (\<lambda>r. short_id r = sid) (short_links d) = Some row
        \<and> sid \<notin> set (map hash_id (deleted_links_hash d)) \<and> a \<noteq> creator_id row \<longrightarrow>
        snd (delete_link_callback sha d (cb\<lparr>cb_from_id := a\<rparr>) now) = Inr Deleted)"
proof -
  have "delete_link_callback sha d (cb\<lparr>cb_from_id := a\<rparr>) now
     = delete_link_callback sha d (cb\<lparr>cb_from_id := b\<rparr>) now"
    by (simp add: delete_link_callback_def)
  moreover have "1 < length (split_ws (m_text m)) \<longrightarrow>
        cmd_start d (m\<lparr>m_from_id := a\<rparr>) rs now' = cmd_start d (m\<lparr>m_from_id := b\<rparr>) rs now'"
    by (simp add: cmd_start_def)
  moreover have "parse_short_id (cb_data cb) = Inr sid
        \<and> find (\<lambda>r. short_id r = sid) (short_links d) = Some row
        \<and> sid \<notin> set (map hash_id (deleted_links_hash d)) \<and> a \<noteq> creator_id row \<longrightarrow>
        snd (delete_link_callback sha d (cb\<lparr>cb_from_id := a\<rparr>) now) = Inr Deleted"
  proof
    assume h: "parse_short_id (cb_data cb) = Inr sid
        \<and> find (\<lambda>r. short_id r = sid) (short_links d) = Some row
        \<and> sid \<notin> set (map hash_id (deleted_links_hash d)) \<and> a \<noteq> creator_id row"
    then have "parse_short_id (cb_data (cb\<lparr>cb_from_id := a\<rparr>)) = Inr sid"
      by simp
    from delete_present [OF this, of d row sha now] h
    show "snd (delete_link_callback sha d (cb\<lparr>cb_from_id := a\<rparr>) now) = Inr Deleted"
      by simp
  qed
  ultimately show ?thesis
    by blast
qed

lemma start_sid_words: "split_ws (str ''/start '' @ example_sid) = [str ''/start'', example_sid]"
  by (simp add: split_ws_def str_def example_sid_def is_space_def)

theorem no_authorization_check_witness:
  "creator_id (hd (short_links one_link_db)) = 7
   \<and> delete_link_callback example_sha one_link_db (press_delete 9) (str ''2026-01-01T11:00:00'')
     = delete_link_callback example_sha one_link_db (press_delete 7) (str ''2026-01-01T11:00:00'')
   \<and> snd (delete_link_callback example_sha one_link_db (press_delete 9) (str ''2026-01-01T11:00:00''))
     = Inr Deleted
   \<and> cmd_start one_link_db (bob\<lparr>m_text := str ''/start '' @ example_sid\<rparr>\<lparr>m_from_id := 9\<rparr>)
        example_entropy (str ''2026-01-01T10:30:00'')
     = cmd_start one_link_db (bob\<lparr>m_text := str ''/start '' @ example_sid\<rparr>\<lparr>m_from_id := 7\<rparr>)
        example_entropy (str ''2026-01-01T10:30:00'')"
proof -
  have fresh: "example_sid \<notin> set (map hash_id (deleted_links_hash one_link_db))"
    by (simp add: one_link_db_def)
  have creator: "creator_id (hd (short_links one_link_db)) = 7"
    by (simp add: one_link_db_def)
  have pa: "(press_delete 0)\<lparr>cb_from_id := 9\<rparr> = press_delete 9"
    and pb: "(press_delete 0)\<lparr>cb_from_id := 7\<rparr> = press_delete 7"
    by (simp_all add: press_delete_def)
  have words: "1 < length (split_ws (m_text (bob\<lparr>m_text := str ''/start '' @ example_sid\<rparr>)))"
    by (simp add: start_sid_words)
  have other: "(9::int) \<noteq> creator_id \<lparr>short_id = example_sid, original_url = example_url,
            creator_id = 7, folder_id = None, created_at = str ''2026-01-01T10:00:00''\<rparr>"
    by simp
  note inst = no_authorization_check [where cb = "press_delete 0" and a = 9 and b = 7
      and sha = example_sha and d = one_link_db and now = "str ''2026-01-01T11:00:00''"
      and m = "bob\<lparr>m_text := str ''/start '' @ example_sid\<rparr>" and rs = example_entropy
      and now' = "str ''2026-01-01T10:30:00''" and sid = example_sid
      and row = "\<lparr>short_id = example_sid, original_url = example_url, creator_id = 7,
            folder_id = None, created_at = str ''2026-01-01T10:00:00''\<rparr>",
      unfolded pa pb]
  from inst have 1: "delete_link_callback example_sha one_link_db (press_delete 9) (str ''2026-01-01T11:00:00'')
     = delete_link_callback example_sha one_link_db (press_delete 7) (str ''2026-01-01T11:00:00'')"
    by blast
  from inst words have 2: "cmd_start one_link_db
        (bob\<lparr>m_text := str ''/start '' @ example_sid\<rparr>\<lparr>m_from_id := 9\<rparr>)
        example_entropy (str ''2026-01-01T10:30:00'')
     = cmd_start one_link_db (bob\<lparr>m_text := str ''/start '' @ example_sid\<rparr>\<lparr>m_from_id := 7\<rparr>)
        example_entropy (str ''2026-01-01T10:30:00'')"
    by blast
  from inst parse_press [of 0] find_one_link fresh other
  have 3: "snd (delete_link_callback example_sha one_link_db (press_delete 9) (str ''2026-01-01T11:00:00''))
     = Inr Deleted"
    by blast
  from 1 2 3 creator show ?thesis
    by blast
qed

text \<open>
  Claim C10. A start command whose text has a second word returns from the resolve
  branch: the stored database is unchanged, so \<open>user\<close> and \<open>meta_data\<close> are, and the
  caller is registered afterwards exactly if it was before; the answer is the
  resolved URL or \<open>LinkNotFound\<close>.
\<close>

theorem start_with_argument_registers_nobody:
  assumes "1 < length (split_ws (m_text m))"
  shows "cmd_start d m rs now =
           (d, Inr (case select_original_url d (split_ws (m_text m) ! 1) of
                      Some url \<Rightarrow> LinkReady url
                    | None \<Rightarrow> LinkNotFound))
       \<and> user (fst (cmd_start d m rs now)) = user d
       \<and> meta_data (fst (cmd_start d m rs now)) = meta_data d
       \<and> select_user (fst (cmd_start d m rs now)) (m_from_id m) = select_user d (m_from_id m)"
  using assms
  by (simp add: cmd_start_def split: option.splits)

theorem start_with_argument_registers_nobody_witness:
  "select_user one_link_db (m_from_id (bob\<lparr>m_text := str ''/start '' @ example_sid\<rparr>)) = None
   \<and> cmd_start one_link_db (bob\<lparr>m_text := str ''/start '' @ example_sid\<rparr>) example_entropy
        (str ''2026-01-01T10:30:00'')
     = (one_link_db, Inr (LinkReady example_url))
   \<and> select_user
        (fst (cmd_start one_link_db (bob\<lparr>m_text := str ''/start '' @ example_sid\<rparr>) example_entropy
               (str ''2026-01-01T10:30:00'')))
        (m_from_id (bob\<lparr>m_text := str ''/start '' @ example_sid\<rparr>)) = None"
proof -
  have words: "1 < length (split_ws (m_text (bob\<lparr>m_text := str ''/start '' @ example_sid\<rparr>)))"
    by (simp add: start_sid_words)
  have nobody: "select_user one_link_db (m_from_id (bob\<lparr>m_text := str ''/start '' @ example_sid\<rparr>)) = None"
    by (simp add: select_user_def one_link_db_def)
  have url: "select_original_url one_link_db example_sid = Some example_url"
    by (simp add: select_original_url_def find_one_link)
  from start_with_argument_registers_nobody [OF words, of one_link_db example_entropy
      "str ''2026-01-01T10:30:00''"] nobody url
  show ?thesis
    by (simp add: start_sid_words)
qed

subsection \<open>Submissions that are not URLs\<close>








subsection \<open>Registration\<close>

lemma register_fresh:
  assumes "generate_id default_length rs \<notin> set (map meta_id (meta_data d))"
    and "m_from_id m \<notin> set (map telegram_id (user d))"
  shows "cmd_start_register d None m rs now =
     (d\<lparr>meta_data := meta_data d @
           [\<lparr>meta_id = generate_id default_length rs, user_tg_reg_date = str ''Unknown'',
             user_bot_reg_date = now, device_meta = str ''Mobile/Desktop'',
             browser = str ''In-App Telegram''\<rparr>],
         user := user d @
           [\<lparr>telegram_id = m_from_id m, username = m_username m,
             nickname = m_full_name m, meta_data_id = generate_id default_length rs\<rparr>]\<rparr>,
      Inr Welcome)"
  using assms by (simp add: cmd_start_register_def transaction_register)

lemma register_clash:
  assumes "m_from_id m \<in> set (map telegram_id (user d))"
  shows "cmd_start_register d None m rs now = (d, Inl IntegrityError)"
  using assms by (simp add: cmd_start_register_def transaction_register)

lemma register_found: "cmd_start_register d (Some u) m rs now = (d, Inr Welcome)"
  by (simp add: cmd_start_register_def)

lemma register_distinct:
  assumes "distinct (map telegram_id (user d))"
  shows "distinct (map telegram_id (user (fst (cmd_start_register d found m rs now))))"
  using assms
  by (cases found) (auto simp: cmd_start_register_def transaction_register)

text \<open>
  Claim C8, as amended. Whatever the earlier \<open>SELECT\<close> of a task returned, its
  registration leaves the ids of \<open>user\<close> distinct; so do two start actions at once,
  after which at most one row has a given id. But a task whose \<open>SELECT\<close> found no
  row while the id is in \<open>user\<close> when it writes ends in \<open>IntegrityError\<close> and
  leaves the stored database as it is (no row in \<open>user\<close>, none in \<open>meta_data\<close>).
\<close>

theorem registration_keeps_one_row:
  assumes "distinct (map telegram_id (user d))"
  shows "distinct (map telegram_id (user (fst (cmd_start_register d found m rs now))))
       \<and> distinct (map telegram_id (user (fst (concurrent_start d mA rsA nowA mB rsB nowB))))
       \<and> length (filter (\<lambda>r. telegram_id r = uid)
            (user (fst (concurrent_start d mA rsA nowA mB rsB nowB)))) \<le> 1
       \<and> (found = None \<and> m_from_id m \<in> set (map telegram_id (user d)) \<longrightarrow>
            cmd_start_register d found m rs now = (d, Inl IntegrityError))"
proof -
  let ?dA = "fst (cmd_start_register d (select_user d (m_from_id mA)) mA rsA nowA)"
  have "distinct (map telegram_id (user ?dA))"
    using assms by (rule register_distinct)
  then have "distinct (map telegram_id
      (user (fst (cmd_start_register ?dA (select_user d (m_from_id mB)) mB rsB nowB))))"
    by (rule register_distinct)
  moreover have "fst (concurrent_start d mA rsA nowA mB rsB nowB)
      = fst (cmd_start_register ?dA (select_user d (m_from_id mB)) mB rsB nowB)"
    by (simp add: concurrent_start_def Let_def split: prod.splits)
  ultimately have two: "distinct (map telegram_id
      (user (fst (concurrent_start d mA rsA nowA mB rsB nowB))))"
    by simp
  have once: "distinct (map f xs) \<Longrightarrow> length (filter (\<lambda>r. f r = k) xs) \<le> 1" for f :: "user_row \<Rightarrow> int" and xs k
    by (induction xs) (auto simp: filter_key_absent)
  from two have "length (filter (\<lambda>r. telegram_id r = uid)
            (user (fst (concurrent_start d mA rsA nowA mB rsB nowB)))) \<le> 1"
    by (rule once)
  with two register_distinct [OF assms, of found m rs now] register_clash [of m d rs now]
  show ?thesis
    by blast
qed

lemma bob_fresh:
  "cmd_start_register empty_db None bob example_entropy now =
     (\<lparr>meta_data = [\<lparr>meta_id = example_sid, user_tg_reg_date = str ''Unknown'',
             user_bot_reg_date = now, device_meta = str ''Mobile/Desktop'',
             browser = str ''In-App Telegram''\<rparr>],
       user = [\<lparr>telegram_id = 9, username = None, nickname = str ''Bob'',
             meta_data_id = example_sid\<rparr>],
       short_links = [], folders = [], deleted_links_hash = []\<rparr>, Inr Welcome)"
proof -
  have "generate_id default_length example_entropy \<notin> set (map meta_id (meta_data empty_db))"
    and "m_from_id bob \<notin> set (map telegram_id (user empty_db))"
    by (simp_all add: empty_db_def)
  from register_fresh [OF this, of now] show ?thesis
    by (simp add: example_sid_generated empty_db_def bob_def)
qed

text \<open>
  Claim C8 as stated fails in its last part: of two start actions of the same new
  user at once, the first is greeted and the second ends in the primary-key
  conflict \<open>IntegrityError\<close>.
\<close>

theorem concurrent_start_counterexample:
  "select_user empty_db (m_from_id bob) = None
   \<and> snd (concurrent_start empty_db bob example_entropy (str ''2026-01-01T09:00:00'')
              bob other_entropy (str ''2026-01-01T09:00:01''))
     = (Inr Welcome, Inl IntegrityError)"
proof -
  have none: "select_user empty_db (m_from_id bob) = None"
    by (simp add: select_user_def empty_db_def)
  let ?dA = "fst (cmd_start_register empty_db None bob example_entropy (str ''2026-01-01T09:00:00''))"
  have "m_from_id bob \<in> set (map telegram_id (user ?dA))"
    by (simp add: bob_fresh) (simp add: bob_def)
  from register_clash [OF this, of other_entropy "str ''2026-01-01T09:00:01''"]
  have "snd (concurrent_start empty_db bob example_entropy (str ''2026-01-01T09:00:00'')
              bob other_entropy (str ''2026-01-01T09:00:01''))
     = (Inr Welcome, Inl IntegrityError)"
    by (simp add: concurrent_start_def none Let_def bob_fresh split: prod.splits)
  with none show ?thesis
    by blast
qed

theorem registration_keeps_one_row_witness:
  "distinct (map telegram_id (user empty_db))
   \<and> length (filter (\<lambda>r. telegram_id r = 9)
        (user (fst (concurrent_start empty_db bob example_entropy (str ''2026-01-01T09:00:00'')
                     bob other_entropy (str ''2026-01-01T09:00:01''))))) \<le> 1"
proof -
  have h: "distinct (map telegram_id (user empty_db))"
    by (simp add: empty_db_def)
  from registration_keeps_one_row [OF h] h show ?thesis
    by blast
qed

section \<open>Reachable states, repeated deletions and delete tokens\<close>

subsection \<open>What one action does to links and hashes\<close>

lemma cmd_start_hashes:
  "deleted_links_hash (fst (cmd_start d m rs now)) = deleted_links_hash d"
  by (simp add: cmd_start_def cmd_start_register_def transaction_register Let_def
      split: option.splits)

lemma create_folder_hashes:
  "deleted_links_hash (fst (create_folder_example d cb rs)) = deleted_links_hash d"
  by (simp add: create_folder_example_def Let_def transaction_insert_folder)

lemma find_Some_key: "find (\<lambda>r. f r = k) xs = Some x \<Longrightarrow> k \<in> set (map f xs)"
  by (induction xs) (auto split: if_splits)

lemma find_None_key: "k \<notin> set (map f xs) \<Longrightarrow> find (\<lambda>r. f r = k) xs = None"
  by (induction xs) auto

lemma keys_filter: "set (map f (filter (\<lambda>r. f r \<noteq> k) xs)) = set (map f xs) - {k}"
  by (induction xs) auto

lemma create_link_effect:
  "fst (create_link valid botname d m rs now) = d
   \<or> (generate_id default_length rs \<notin> set (map short_id (short_links d))
      \<and> (\<exists>row. short_id row = generate_id default_length rs
            \<and> short_links (fst (create_link valid botname d m rs now)) = short_links d @ [row]
            \<and> deleted_links_hash (fst (create_link valid botname d m rs now))
                = deleted_links_hash d))"
  by (simp add: create_link_def Let_def transaction_insert_link)

lemma delete_effect:
  "fst (delete_link_callback sha d cb now) = d
   \<or> (\<exists>hrow. parse_short_id (cb_data cb) = Inr (hash_id hrow)
         \<and> hash_id hrow \<in> set (map short_id (short_links d))
         \<and> hash_id hrow \<notin> set (map hash_id (deleted_links_hash d))
         \<and> deleted_links_hash (fst (delete_link_callback sha d cb now))
             = deleted_links_hash d @ [hrow]
         \<and> short_links (fst (delete_link_callback sha d cb now))
             = filter (\<lambda>r. short_id r \<noteq> hash_id hrow) (short_links d))"
proof (cases "parse_short_id (cb_data cb)")
  case (Inl e)
  then show ?thesis by (simp add: delete_link_callback_def)
next
  case (Inr sid)
  show ?thesis
  proof (cases "find (\<lambda>r. short_id r = sid) (short_links d)")
    case None
    with Inr show ?thesis by (simp add: delete_absent)
  next
    case (Some row)
    show ?thesis
    proof (cases "sid \<in> set (map hash_id (deleted_links_hash d))")
      case True
      with Inr Some show ?thesis by (simp add: delete_clash)
    next
      case False
      from find_Some_key [OF Some] have "sid \<in> set (map short_id (short_links d))" .
      with False Inr show ?thesis
        by (simp add: delete_present [OF Inr Some False])
    qed
  qed
qed

lemma handle_effect:
  "(short_links (db_after d (handle valid sha botname d e)) = short_links d
      \<and> deleted_links_hash (db_after d (handle valid sha botname d e)) = deleted_links_hash d)
   \<or> (\<exists>row. issues e (short_id row)
         \<and> short_id row \<notin> set (map short_id (short_links d))
         \<and> short_links (db_after d (handle valid sha botname d e)) = short_links d @ [row]
         \<and> deleted_links_hash (db_after d (handle valid sha botname d e))
             = deleted_links_hash d)
   \<or> (\<exists>hrow. deletes e (hash_id hrow)
         \<and> hash_id hrow \<in> set (map short_id (short_links d))
         \<and> hash_id hrow \<notin> set (map hash_id (deleted_links_hash d))
         \<and> deleted_links_hash (db_after d (handle valid sha botname d e))
             = deleted_links_hash d @ [hrow]
         \<and> short_links (db_after d (handle valid sha botname d e))
             = filter (\<lambda>r. short_id r \<noteq> hash_id hrow) (short_links d))"
proof (cases e)
  case (Start m rs now)
  then show ?thesis
    by (simp add: db_after_Some cmd_start_links cmd_start_hashes)
next
  case (Text m rs now)
  show ?thesis
  proof (cases "create_link_filter m")
    case True
    with Text create_link_effect [of valid botname d m rs now] show ?thesis
      by (auto simp: submit_url_def db_after_Some)
  next
    case False
    with Text show ?thesis
      by (simp add: submit_url_def db_after_None)
  qed
next
  case (MyLinks m)
  then show ?thesis by (simp add: db_after_Some list_links_def Let_def)
next
  case (Folders m)
  then show ?thesis by (simp add: db_after_Some cmd_folders_def Let_def)
next
  case (Callback cb rs now)
  show ?thesis
  proof (cases "delete_link_filter cb")
    case True
    with Callback delete_effect [of sha d cb now] show ?thesis
      by (auto simp: on_callback_query_def db_after_Some)
  next
    case False
    with Callback show ?thesis
      by (simp add: on_callback_query_def db_after_Some db_after_None create_folder_links
          create_folder_hashes)
  qed
qed

lemma step_both:
  assumes "sid \<in> set (map hash_id (deleted_links_hash (db_after d (handle valid sha botname d e))))"
    and "sid \<in> set (map short_id (short_links (db_after d (handle valid sha botname d e))))"
  shows "(sid \<in> set (map hash_id (deleted_links_hash d)) \<and> sid \<in> set (map short_id (short_links d)))
         \<or> issues e sid"
  using handle_effect [where valid = valid and sha = sha and botname = botname and d = d and e = e] assms
  by (auto simp del: set_map simp: keys_filter)

lemma step_hash_mono:
  "sid \<in> set (map hash_id (deleted_links_hash d))
   \<Longrightarrow> sid \<in> set (map hash_id (deleted_links_hash (db_after d (handle valid sha botname d e))))"
  using handle_effect [where valid = valid and sha = sha and botname = botname and d = d and e = e] by auto

lemma step_removed:
  assumes "sid \<in> set (map short_id (short_links d))"
    and "sid \<notin> set (map short_id (short_links (db_after d (handle valid sha botname d e))))"
  shows "sid \<in> set (map hash_id (deleted_links_hash (db_after d (handle valid sha botname d e))))"
  using handle_effect [where valid = valid and sha = sha and botname = botname and d = d and e = e] assms by auto

lemma step_not_issued:
  assumes "sid \<notin> set (map short_id (short_links d))" and "\<not> issues e sid"
  shows "sid \<notin> set (map short_id (short_links (db_after d (handle valid sha botname d e))))
       \<and> filter (\<lambda>r. hash_id r = sid) (deleted_links_hash (db_after d (handle valid sha botname d e)))
         = filter (\<lambda>r. hash_id r = sid) (deleted_links_hash d)"
  using handle_effect [where valid = valid and sha = sha and botname = botname and d = d and e = e] assms by auto

subsection \<open>The same along a sequence of actions\<close>

lemma run_hash_mono:
  "sid \<in> set (map hash_id (deleted_links_hash d))
   \<Longrightarrow> sid \<in> set (map hash_id (deleted_links_hash (run valid sha botname d es)))"
proof (induction es arbitrary: d)
  case Nil
  then show ?case by simp
next
  case (Cons e es)
  from Cons.IH [OF step_hash_mono [OF Cons.prems]] show ?case by simp
qed

lemma run_both:
  assumes "sid \<in> set (map hash_id (deleted_links_hash (run valid sha botname d es)))"
    and "sid \<in> set (map short_id (short_links (run valid sha botname d es)))"
  shows "(sid \<in> set (map hash_id (deleted_links_hash d)) \<and> sid \<in> set (map short_id (short_links d)))
         \<or> (\<exists>e \<in> set es. issues e sid)"
  using assms
proof (induction es arbitrary: d)
  case Nil
  then show ?case by simp
next
  case (Cons e es)
  let ?d' = "db_after d (handle valid sha botname d e)"
  from Cons.prems have "(sid \<in> set (map hash_id (deleted_links_hash ?d'))
         \<and> sid \<in> set (map short_id (short_links ?d'))) \<or> (\<exists>e \<in> set es. issues e sid)"
    by (intro Cons.IH) simp_all
  then show ?case
    using step_both [of sid d valid sha botname e] by auto
qed

lemma run_removed:
  assumes "sid \<in> set (map short_id (short_links d))"
    and "sid \<notin> set (map short_id (short_links (run valid sha botname d es)))"
  shows "sid \<in> set (map hash_id (deleted_links_hash (run valid sha botname d es)))"
  using assms
proof (induction es arbitrary: d)
  case Nil
  then show ?case by simp
next
  case (Cons e es)
  let ?d' = "db_after d (handle valid sha botname d e)"
  show ?case
  proof (cases "sid \<in> set (map short_id (short_links ?d'))")
    case True
    with Cons show ?thesis by simp
  next
    case False
    from step_removed [OF Cons.prems(1) False]
    have "sid \<in> set (map hash_id (deleted_links_hash ?d'))" .
    from run_hash_mono [OF this] show ?thesis by simp
  qed
qed

lemma run_not_issued:
  assumes "sid \<notin> set (map short_id (short_links d))" and "\<forall>e \<in> set es. \<not> issues e sid"
  shows "sid \<notin> set (map short_id (short_links (run valid sha botname d es)))
       \<and> filter (\<lambda>r. hash_id r = sid) (deleted_links_hash (run valid sha botname d es))
         = filter (\<lambda>r. hash_id r = sid) (deleted_links_hash d)"
  using assms
proof (induction es arbitrary: d)
  case Nil
  then show ?case by simp
next
  case (Cons e es)
  let ?d' = "db_after d (handle valid sha botname d e)"
  from Cons.prems have ne: "\<not> issues e sid" and rest: "\<forall>e \<in> set es. \<not> issues e sid"
    by simp_all
  from step_not_issued [OF Cons.prems(1) ne, of valid sha botname]
  have s: "sid \<notin> set (map short_id (short_links ?d'))"
    and h: "filter (\<lambda>r. hash_id r = sid) (deleted_links_hash ?d')
         = filter (\<lambda>r. hash_id r = sid) (deleted_links_hash d)"
    by simp_all
  from Cons.IH [OF s rest] h show ?case by simp
qed

subsection \<open>Atomicity of a deletion\<close>

text \<open>
  Claim C3, as amended. The delete handler on a short id that is in \<open>short_links\<close>
  leaves the stored database either as it was (the \<open>INSERT\<close> raised) or with both
  writes made, the row added to \<open>deleted_links_hash\<close> and the link's row removed; and
  the block left after any number \<open>k\<close> of its three operations leaves one of the
  same two databases. Along every sequence of actions from every database \<open>d0\<close>: an
  id whose link row was there and is gone has a hash row; and an id that has a hash
  row and a link row had both already in \<open>d0\<close>, or was issued again by the generator
  for one of the submissions.
\<close>

theorem delete_atomic:
  assumes "parse_short_id (cb_data cb) = Inr sid"
    and "find (\<lambda>r. short_id r = sid) (short_links d) = Some row"
  shows "let both = d\<lparr>deleted_links_hash := deleted_links_hash d @
                       [\<lparr>hash_id = sid, original_url_hash = sha (original_url row),
                         deleted_at = now, d_creator_id = creator_id row\<rparr>],
                     short_links := filter (\<lambda>r. short_id r \<noteq> sid) (short_links d)\<rparr>;
             ops = delete_ops sha sid (original_url row, creator_id row) now
         in (delete_link_callback sha d cb now = (d, Inl IntegrityError)
             \<or> delete_link_callback sha d cb now = (both, Inr Deleted))
          \<and> (interrupted d ops k = d \<or> (3 \<le> k \<and> interrupted d ops k = both))
          \<and> both \<noteq> d
          \<and> sid \<in> set (map hash_id (deleted_links_hash both))
          \<and> sid \<notin> set (map short_id (short_links both))
          \<and> (x \<in> set (map short_id (short_links d0))
               \<and> x \<notin> set (map short_id (short_links (run valid sha botname d0 es)))
              \<longrightarrow> x \<in> set (map hash_id (deleted_links_hash (run valid sha botname d0 es))))
          \<and> (x \<in> set (map hash_id (deleted_links_hash (run valid sha botname d0 es)))
               \<and> x \<in> set (map short_id (short_links (run valid sha botname d0 es)))
              \<longrightarrow> (x \<in> set (map hash_id (deleted_links_hash d0))
                    \<and> x \<in> set (map short_id (short_links d0)))
                   \<or> (\<exists>e \<in> set es. issues e x))"
proof -
  let ?both = "d\<lparr>deleted_links_hash := deleted_links_hash d @
                       [\<lparr>hash_id = sid, original_url_hash = sha (original_url row),
                         deleted_at = now, d_creator_id = creator_id row\<rparr>],
                     short_links := filter (\<lambda>r. short_id r \<noteq> sid) (short_links d)\<rparr>"
  let ?ops = "delete_ops sha sid (original_url row, creator_id row) now"
  have handler: "delete_link_callback sha d cb now = (d, Inl IntegrityError)
             \<or> delete_link_callback sha d cb now = (?both, Inr Deleted)"
    using delete_present [OF assms, of sha now] delete_clash [OF assms, of sha now]
    by blast
  have cut: "interrupted d ?ops k = d \<or> (3 \<le> k \<and> interrupted d ?ops k = ?both)"
  proof (cases "k < 3")
    case True
    then show ?thesis
      by (simp add: interrupted_def transaction_without_commit take_delete_ops)
  next
    case False
    then have "take k ?ops = ?ops"
      by (simp add: delete_ops_def)
    with False show ?thesis
      by (simp add: interrupted_def transaction_delete)
  qed
  have "length (deleted_links_hash ?both) \<noteq> length (deleted_links_hash d)"
    by simp
  then have differ: "?both \<noteq> d"
    by metis
  have inboth: "sid \<in> set (map hash_id (deleted_links_hash ?both))"
    and notin: "sid \<notin> set (map short_id (short_links ?both))"
    by auto
  have removed: "x \<in> set (map short_id (short_links d0))
               \<and> x \<notin> set (map short_id (short_links (run valid sha botname d0 es)))
              \<longrightarrow> x \<in> set (map hash_id (deleted_links_hash (run valid sha botname d0 es)))"
    using run_removed [of x d0 valid sha botname es] by blast
  have reissued: "x \<in> set (map hash_id (deleted_links_hash (run valid sha botname d0 es)))
               \<and> x \<in> set (map short_id (short_links (run valid sha botname d0 es)))
              \<longrightarrow> (x \<in> set (map hash_id (deleted_links_hash d0))
                    \<and> x \<in> set (map short_id (short_links d0)))
                   \<or> (\<exists>e \<in> set es. issues e x)"
    using run_both [of x valid sha botname d0 es] by blast
  from handler cut differ inboth notin removed reissued show ?thesis
    unfolding Let_def by (intro conjI)
qed

lemma press_delete_filter: "delete_link_filter (press_delete u)"
  by (simp add: delete_link_filter_def press_delete_def startswith_def str_def)

lemma press_delete_one_link:
  "delete_link_callback example_sha one_link_db (press_delete u) (str ''2026-01-01T11:00:00'')
     = (deleted_db, Inr Deleted)"
proof -
  have fresh: "example_sid \<notin> set (map hash_id (deleted_links_hash one_link_db))"
    by (simp add: one_link_db_def)
  show ?thesis
    by (simp add: delete_present [OF parse_press find_one_link fresh])
      (simp add: one_link_db_def deleted_db_def)
qed

lemma run_press_delete:
  "run example_valid example_sha example_bot one_link_db
     [Callback (press_delete u) example_entropy (str ''2026-01-01T11:00:00'')] = deleted_db"
  by (simp add: on_callback_query_def press_delete_filter db_after_Some press_delete_one_link)

theorem delete_atomic_witness:
  "interrupted one_link_db
     (delete_ops example_sha example_sid (example_url, 7) (str ''2026-01-01T11:00:00'')) 2
   = one_link_db
   \<and> delete_link_callback example_sha one_link_db (press_delete 9) (str ''2026-01-01T11:00:00'')
     = (deleted_db, Inr Deleted)
   \<and> example_sid \<in> set (map short_id (short_links one_link_db))
   \<and> example_sid \<notin> set (map short_id (short_links deleted_db))
   \<and> example_sid \<in> set (map hash_id (deleted_links_hash
        (run example_valid example_sha example_bot one_link_db
          [Callback (press_delete 9) example_entropy (str ''2026-01-01T11:00:00'')])))"
proof -
  note inst = delete_atomic [OF parse_press find_one_link, where sha = example_sha
      and now = "str ''2026-01-01T11:00:00''" and k = 2 and x = example_sid
      and ?d0.0 = one_link_db and valid = example_valid and botname = example_bot
      and es = "[Callback (press_delete 9) example_entropy (str ''2026-01-01T11:00:00'')]",
      unfolded Let_def]
  have before: "example_sid \<in> set (map short_id (short_links one_link_db))"
    by (simp add: one_link_db_def)
  have after: "example_sid \<notin> set (map short_id (short_links deleted_db))"
    by (simp add: deleted_db_def)
  have "\<not> (3::nat) \<le> 2"
    by simp
  with inst have two: "interrupted one_link_db
     (delete_ops example_sha example_sid (example_url, 7) (str ''2026-01-01T11:00:00'')) 2
   = one_link_db"
    by simp
  from inst before after
  have hashed: "example_sid \<in> set (map hash_id (deleted_links_hash
        (run example_valid example_sha example_bot one_link_db
          [Callback (press_delete 9) example_entropy (str ''2026-01-01T11:00:00'')])))"
    by (simp only: run_press_delete) blast
  from two hashed before after press_delete_one_link [of 9] show ?thesis
    by blast
qed

text \<open>
  Claim C3 as stated fails in its sentence on reachable states: after submit, delete
  and submit again with the generator returning the same id, the stored database
  has the hash of the id recorded while a link row of the id is there.
\<close>

theorem hash_with_link_counterexample:
  "run example_valid example_sha example_bot empty_db
       [Text ann example_entropy (str ''2026-01-01T10:00:00''),
        Callback (press_delete 7) example_entropy (str ''2026-01-01T11:00:00''),
        Text ann example_entropy (str ''2026-01-01T12:00:00'')] = reused_id_db
   \<and> example_sid \<in> set (map hash_id (deleted_links_hash reused_id_db))
   \<and> example_sid \<in> set (map short_id (short_links reused_id_db))"
proof -
  have "example_sid \<in> set (map hash_id (deleted_links_hash reused_id_db))"
    and "example_sid \<in> set (map short_id (short_links reused_id_db))"
    by (simp_all add: reused_id_db_def)
  with reused_id_db_reached show ?thesis
    by blast
qed

subsection \<open>A second deletion\<close>

text \<open>
  Claim C4, as amended. After the delete handler has deleted a link, and after any
  further actions among which no submission is issued the same id again, the handler
  run again on the same token answers \<open>DeleteNotFound\<close>, does not raise, and leaves
  the stored database as it is; \<open>deleted_links_hash\<close> holds one row for the id before
  and after.
\<close>

theorem second_delete_not_found:
  assumes "parse_short_id (cb_data cb) = Inr sid"
    and "delete_link_callback sha d cb now = (d1, Inr Deleted)"
    and "cb_data cb' = cb_data cb"
    and "\<forall>e \<in> set es. \<not> issues e sid"
  shows "delete_link_callback sha (run valid sha botname d1 es) cb' now'
           = (run valid sha botname d1 es, Inr DeleteNotFound)
       \<and> length (filter (\<lambda>r. hash_id r = sid)
            (deleted_links_hash (run valid sha botname d1 es))) = 1
       \<and> length (filter (\<lambda>r. hash_id r = sid)
            (deleted_links_hash
              (fst (delete_link_callback sha (run valid sha botname d1 es) cb' now')))) = 1"
proof -
  let ?d2 = "run valid sha botname d1 es"
  from assms(1,2) obtain row where
    row: "find (\<lambda>r. short_id r = sid) (short_links d) = Some row"
    and fresh: "sid \<notin> set (map hash_id (deleted_links_hash d))"
    by (auto simp: delete_link_callback_def select_url_and_creator_def transaction_delete
        split: option.splits if_splits)
  from delete_present [OF assms(1) row fresh, of sha now] assms(2)
  have d1: "d1 = d\<lparr>deleted_links_hash := deleted_links_hash d @
                 [\<lparr>hash_id = sid, original_url_hash = sha (original_url row), deleted_at = now,
                   d_creator_id = creator_id row\<rparr>],
               short_links := filter (\<lambda>r. short_id r \<noteq> sid) (short_links d)\<rparr>"
    by simp
  have absent: "sid \<notin> set (map short_id (short_links d1))"
    by (simp add: d1 keys_filter del: set_map)
  have one: "length (filter (\<lambda>r. hash_id r = sid) (deleted_links_hash d1)) = 1"
    using fresh by (simp add: d1 filter_key_absent)
  from run_not_issued [OF absent assms(4), of valid sha botname]
  have still: "sid \<notin> set (map short_id (short_links ?d2))"
    and same: "filter (\<lambda>r. hash_id r = sid) (deleted_links_hash ?d2)
         = filter (\<lambda>r. hash_id r = sid) (deleted_links_hash d1)"
    by simp_all
  from still have gone: "find (\<lambda>r. short_id r = sid) (short_links ?d2) = None"
    by (rule find_None_key)
  from assms(1,3) have "parse_short_id (cb_data cb') = Inr sid"
    by simp
  from delete_absent [OF this gone]
  have second: "delete_link_callback sha ?d2 cb' now' = (?d2, Inr DeleteNotFound)" .
  from same one have "length (filter (\<lambda>r. hash_id r = sid) (deleted_links_hash ?d2)) = 1"
    by simp
  with second show ?thesis
    by simp
qed

theorem second_delete_not_found_witness:
  "delete_link_callback example_sha one_link_db (press_delete 7) (str ''2026-01-01T11:00:00'')
     = (deleted_db, Inr Deleted)
   \<and> delete_link_callback example_sha
       (run example_valid example_sha example_bot deleted_db
          [Start bob example_entropy (str ''2026-01-01T11:10:00''), MyLinks ann])
       (press_delete 7) (str ''2026-01-01T11:30:00'')
     = (run example_valid example_sha example_bot deleted_db
          [Start bob example_entropy (str ''2026-01-01T11:10:00''), MyLinks ann],
        Inr DeleteNotFound)
   \<and> delete_link_callback example_sha deleted_db (press_delete 7) (str ''2026-01-01T11:30:00'')
     = (deleted_db, Inr DeleteNotFound)
   \<and> length (filter (\<lambda>r. hash_id r = example_sid) (deleted_links_hash deleted_db)) = 1"
proof -
  have quiet: "\<forall>e \<in> set [Start bob example_entropy (str ''2026-01-01T11:10:00''), MyLinks ann].
                 \<not> issues e example_sid"
    by simp
  have none: "\<forall>e \<in> set []. \<not> issues e example_sid"
    by simp
  note first = press_delete_one_link [of 7]
  from second_delete_not_found [OF parse_press first refl quiet,
      where valid = example_valid and botname = example_bot
        and now' = "str ''2026-01-01T11:30:00''"]
  have later: "delete_link_callback example_sha
       (run example_valid example_sha example_bot deleted_db
          [Start bob example_entropy (str ''2026-01-01T11:10:00''), MyLinks ann])
       (press_delete 7) (str ''2026-01-01T11:30:00'')
     = (run example_valid example_sha example_bot deleted_db
          [Start bob example_entropy (str ''2026-01-01T11:10:00''), MyLinks ann],
        Inr DeleteNotFound)"
    by blast
  from second_delete_not_found [OF parse_press first refl none,
      where valid = example_valid and botname = example_bot
        and now' = "str ''2026-01-01T11:30:00''"]
  have at_once: "delete_link_callback example_sha deleted_db (press_delete 7) (str ''2026-01-01T11:30:00'')
     = (deleted_db, Inr DeleteNotFound)
     \<and> length (filter (\<lambda>r. hash_id r = example_sid) (deleted_links_hash deleted_db)) = 1"
    by simp
  from first later at_once show ?thesis
    by blast
qed

text \<open>
  Claim C4 as stated fails when the id is issued again between the two deletions:
  the link is deleted, the same URL is submitted with the generator returning the
  same id, and the second deletion ends in \<open>IntegrityError\<close>.
\<close>

theorem second_delete_counterexample:
  "delete_link_callback example_sha one_link_db (press_delete 7) (str ''2026-01-01T11:00:00'')
     = (deleted_db, Inr Deleted)
   \<and> run example_valid example_sha example_bot deleted_db
       [Text ann example_entropy (str ''2026-01-01T12:00:00'')] = reused_id_db
   \<and> delete_link_callback example_sha reused_id_db (press_delete 7) (str ''2026-01-01T13:00:00'')
     = (reused_id_db, Inl IntegrityError)"
proof -
  have again: "run example_valid example_sha example_bot deleted_db
       [Text ann example_entropy (str ''2026-01-01T12:00:00'')] = reused_id_db"
    by (simp add: submit_url_def ann_filter db_after_Some ann_creates deleted_db_def)
      (simp add: reused_id_db_def)
  have clash: "example_sid \<in> set (map hash_id (deleted_links_hash reused_id_db))"
    by (simp add: reused_id_db_def)
  from press_delete_one_link [of 7] again delete_clash [OF parse_press find_reused clash]
  show ?thesis
    by blast
qed

subsection \<open>The token of a delete button\<close>

text \<open>
  Claim C9. A generated id holds no underscore, so \<open>del_\<close> followed by it is parsed
  back to it, for every length. And for every link of the caller whose id is a
  generated one, \<open>list_links\<close> answers with a list that holds the link with a token;
  every token of the list is \<open>del_\<close> followed by the id of its link; the token passes
  the filter of \<open>delete_link_callback\<close>, so that the dispatcher calls that handler, and
  the handler parses it back to the id.
\<close>

theorem delete_token_roundtrip:
  "parse_short_id (str ''del_'' @ generate_id n rs) = Inr (generate_id n rs)
   \<and> of_char CHR ''_'' \<notin> set (generate_id n rs)
   \<and> (r \<in> set (short_links d) \<and> creator_id r = m_from_id m \<and> short_id r = generate_id n rs
      \<longrightarrow> (\<exists>items token.
            list_links d m = (d, Inr (LinksList items))
            \<and> (take 30 (original_url r), generate_id n rs, token) \<in> set items
            \<and> (\<forall>shown s_id t. (shown, s_id, t) \<in> set items \<longrightarrow> t = str ''del_'' @ s_id)
            \<and> delete_link_filter \<lparr>cb_data = token, cb_from_id = u\<rparr>
            \<and> parse_short_id (cb_data \<lparr>cb_data = token, cb_from_id = u\<rparr>)
                = Inr (generate_id n rs)
            \<and> on_callback_query sha d \<lparr>cb_data = token, cb_from_id = u\<rparr> rs' now
                = Some (delete_link_callback sha d \<lparr>cb_data = token, cb_from_id = u\<rparr> now)))"
proof -
  let ?sid = "generate_id n rs"
  let ?token = "str ''del_'' @ ?sid"
  let ?links = "select_links_by_creator d (m_from_id m)"
  let ?items = "map (\<lambda>(s_id, url). (take 30 url, s_id, str ''del_'' @ s_id)) ?links"
  have clean: "of_char CHR ''_'' \<notin> set ?sid"
    using generate_id_chars [of n rs] chars_no_underscore by blast
  then have parse: "parse_short_id ?token = Inr ?sid"
    by (rule parse_del)
  have pass: "delete_link_filter \<lparr>cb_data = ?token, cb_from_id = u\<rparr>"
    by (simp add: delete_link_filter_def startswith_def str_def)
  have listed: "\<exists>items token.
            list_links d m = (d, Inr (LinksList items))
            \<and> (take 30 (original_url r), ?sid, token) \<in> set items
            \<and> (\<forall>shown s_id t. (shown, s_id, t) \<in> set items \<longrightarrow> t = str ''del_'' @ s_id)
            \<and> delete_link_filter \<lparr>cb_data = token, cb_from_id = u\<rparr>
            \<and> parse_short_id (cb_data \<lparr>cb_data = token, cb_from_id = u\<rparr>) = Inr ?sid
            \<and> on_callback_query sha d \<lparr>cb_data = token, cb_from_id = u\<rparr> rs' now
                = Some (delete_link_callback sha d \<lparr>cb_data = token, cb_from_id = u\<rparr> now)"
    if row: "r \<in> set (short_links d) \<and> creator_id r = m_from_id m \<and> short_id r = ?sid"
  proof -
    from row have "r \<in> set (filter (\<lambda>r. creator_id r = m_from_id m) (short_links d))"
      by simp
    then have "(short_id r, original_url r) \<in> set ?links"
      unfolding select_links_by_creator_def by (simp only: set_map) (rule imageI)
    with row have mem: "(?sid, original_url r) \<in> set ?links"
      by simp
    then have "?links \<noteq> []"
      by auto
    then have out: "list_links d m = (d, Inr (LinksList ?items))"
      by (simp add: list_links_def Let_def)
    have "(\<lambda>(s_id, url). (take 30 url, s_id, str ''del_'' @ s_id)) (?sid, original_url r)
          \<in> set ?items"
      using mem by (simp only: set_map) (rule imageI)
    then have item: "(take 30 (original_url r), ?sid, ?token) \<in> set ?items"
      by (simp only: prod.case)
    have tokens: "\<forall>shown s_id t. (shown, s_id, t) \<in> set ?items \<longrightarrow> t = str ''del_'' @ s_id"
      by auto
    have route: "on_callback_query sha d \<lparr>cb_data = ?token, cb_from_id = u\<rparr> rs' now
                = Some (delete_link_callback sha d \<lparr>cb_data = ?token, cb_from_id = u\<rparr> now)"
      using pass by (simp add: on_callback_query_def)
    have parse': "parse_short_id (cb_data \<lparr>cb_data = ?token, cb_from_id = u\<rparr>) = Inr ?sid"
      using parse by simp
    show ?thesis
    proof (intro exI conjI)
      show "list_links d m = (d, Inr (LinksList ?items))" by (rule out)
      show "(take 30 (original_url r), ?sid, ?token) \<in> set ?items" by (rule item)
      show "\<forall>shown s_id t. (shown, s_id, t) \<in> set ?items \<longrightarrow> t = str ''del_'' @ s_id"
        by (rule tokens)
      show "delete_link_filter \<lparr>cb_data = ?token, cb_from_id = u\<rparr>" by (rule pass)
      show "parse_short_id (cb_data \<lparr>cb_data = ?token, cb_from_id = u\<rparr>) = Inr ?sid"
        by (rule parse')
      show "on_callback_query sha d \<lparr>cb_data = ?token, cb_from_id = u\<rparr> rs' now
                = Some (delete_link_callback sha d \<lparr>cb_data = ?token, cb_from_id = u\<rparr> now)"
        by (rule route)
    qed
  qed
  show ?thesis
  proof (intro conjI impI)
    show "parse_short_id ?token = Inr ?sid" by (rule parse)
    show "of_char CHR ''_'' \<notin> set ?sid" by (rule clean)
  next
    assume "r \<in> set (short_links d) \<and> creator_id r = m_from_id m \<and> short_id r = ?sid"
    then show "\<exists>items token.
            list_links d m = (d, Inr (LinksList items))
            \<and> (take 30 (original_url r), ?sid, token) \<in> set items
            \<and> (\<forall>shown s_id t. (shown, s_id, t) \<in> set items \<longrightarrow> t = str ''del_'' @ s_id)
            \<and> delete_link_filter \<lparr>cb_data = token, cb_from_id = u\<rparr>
            \<and> parse_short_id (cb_data \<lparr>cb_data = token, cb_from_id = u\<rparr>) = Inr ?sid
            \<and> on_callback_query sha d \<lparr>cb_data = token, cb_from_id = u\<rparr> rs' now
                = Some (delete_link_callback sha d \<lparr>cb_data = token, cb_from_id = u\<rparr> now)"
      by (rule listed)
  qed
qed

lemma ann_lists:
  "list_links one_link_db ann
     = (one_link_db, Inr (LinksList [(take 30 example_url, example_sid, str ''del_'' @ example_sid)]))"
  by (simp add: list_links_def select_links_by_creator_def one_link_db_def ann_def Let_def)

theorem delete_token_roundtrip_witness:
  "list_links one_link_db ann
     = (one_link_db, Inr (LinksList [(take 30 example_url, example_sid, str ''del_'' @ example_sid)]))
   \<and> delete_link_filter \<lparr>cb_data = str ''del_'' @ example_sid, cb_from_id = 7\<rparr>
   \<and> parse_short_id (str ''del_'' @ example_sid) = Inr example_sid
   \<and> parse_short_id (str ''del_dkryFMT07els'') = Inr example_sid"
proof -
  let ?r = "\<lparr>short_id = example_sid, original_url = example_url, creator_id = 7,
            folder_id = None, created_at = str ''2026-01-01T10:00:00''\<rparr>"
  have row: "?r \<in> set (short_links one_link_db) \<and> creator_id ?r = m_from_id ann
             \<and> short_id ?r = generate_id default_length example_entropy"
    by (simp add: one_link_db_def ann_def example_sid_generated)
  note inst = delete_token_roundtrip [where n = default_length and rs = example_entropy
      and r = ?r and d = one_link_db and m = ann and u = 7 and sha = example_sha
      and rs' = example_entropy and now = "str ''2026-01-01T11:00:00''",
      unfolded example_sid_generated]
  from inst have parse: "parse_short_id (str ''del_'' @ example_sid) = Inr example_sid"
    by blast
  from inst row [unfolded example_sid_generated] obtain items token where
    out: "list_links one_link_db ann = (one_link_db, Inr (LinksList items))"
    and item: "(take 30 (original_url ?r), example_sid, token) \<in> set items"
    and pass: "delete_link_filter \<lparr>cb_data = token, cb_from_id = 7\<rparr>"
    by blast
  from out ann_lists have "items = [(take 30 example_url, example_sid, str ''del_'' @ example_sid)]"
    by simp
  with item have "token = str ''del_'' @ example_sid"
    by simp
  with pass have filter: "delete_link_filter \<lparr>cb_data = str ''del_'' @ example_sid, cb_from_id = 7\<rparr>"
    by simp
  have "str ''del_dkryFMT07els'' = str ''del_'' @ example_sid"
    by (simp add: example_sid_def str_def)
  with parse filter ann_lists show ?thesis
    by simp
qed

end
